theory Spec2Isabelle
  imports
    Complex_Main
    "HOL-Library.Char_ord"
    "HOL-Library.List_Lexorder"
    "HOL-Library.Product_Lexorder"
begin

section \<open>Data model\<close>

text \<open>
  The lap table and the weather table of a loaded session, restricted to the columns
  that \<^verbatim>\<open>new_utils.py\<close> and \<^verbatim>\<open>standard_plots.py\<close> read.

  A pandas \<^verbatim>\<open>Timedelta\<close> is a count of nanoseconds, hence an \<open>int\<close>; a missing
  value (\<^verbatim>\<open>NaT\<close>, \<^verbatim>\<open>NaN\<close>, \<^verbatim>\<open>None\<close>) of a column that can hold one is \<open>None\<close>.
  Lap numbers are whole numbers (stored by the data library as floats). Weather
  readings are only ever copied, never computed with.
  Row labels of the lap table are the row positions (the default index).
\<close>

type_synonym timedelta = int

record timed =
  Time :: "timedelta option"

record lap = timed +
  Driver :: string
  LapNumber :: int
  LapTime :: "timedelta option"
  Stint :: "int option"
  Compound :: "string option"
  PitInTime :: "timedelta option"
  PitOutTime :: "timedelta option"
  TrackStatus :: string

record weather_sample = timed +
  AirTemp :: rat
  Humidity :: rat
  Pressure :: rat
  Rainfall :: bool
  TrackTemp :: rat
  WindDirection :: int
  WindSpeed :: rat

text \<open>
  A lap table in memory: its rows, and the derived column \<^verbatim>\<open>CumulativeTime\<close>, which the
  table has only once a function has assigned it (\<open>None\<close>: no such column).
\<close>

record lap_frame =
  rows :: "lap list"
  CumulativeTime :: "timedelta option list option"

text \<open>A row of a lap table together with its entry in the \<^verbatim>\<open>CumulativeTime\<close> column.\<close>

type_synonym cum_lap = "lap \<times> timedelta option"

text \<open>
  Tables are objects: \<^verbatim>\<open>session.laps\<close> is a reference into the heap of lap tables, and
  an assignment to a column changes the table the reference points to. The session is
  taken as loaded (\<^verbatim>\<open>session.load()\<close> belongs to the data library). What a function
  prints is appended to \<open>stdout\<close>.
\<close>

record session =
  laps :: nat
  weather_data :: "weather_sample list"

record world =
  heap :: "lap_frame list"
  stdout :: "string list"

text \<open>
  Exceptions of the table library that the functions let through:
  \<^item> \<open>AllNaGroup\<close>: \<^verbatim>\<open>idxmin\<close> over a group without a single valid value (a
    \<^verbatim>\<open>ValueError\<close> of \<^verbatim>\<open>idxmin\<close> itself, or in older versions a \<^verbatim>\<open>KeyError\<close> of
    \<^verbatim>\<open>.loc\<close> on the missing label it returns);
  \<^item> \<open>NullMergeKey\<close>: \<^verbatim>\<open>merge_asof\<close> on a key column with a missing value;
  \<^item> \<open>MissingColumn\<close>: a read of a column the table does not have.
\<close>

datatype error = AllNaGroup | NullMergeKey | MissingColumn

section \<open>Table operations\<close>

text \<open>\<^verbatim>\<open>df.copy()\<close>: a new table with the same content; the result is its reference.\<close>

definition copy_frame :: "nat \<Rightarrow> world \<Rightarrow> nat \<times> world" where
  "copy_frame r w = (length (heap w), w\<lparr>heap := heap w @ [heap w ! r]\<rparr>)"

text \<open>\<^verbatim>\<open>df['CumulativeTime'] = col\<close>: assignment to the column, in place.\<close>

definition set_CumulativeTime :: "nat \<Rightarrow> timedelta option list \<Rightarrow> world \<Rightarrow> world" where
  "set_CumulativeTime r col w =
     w\<lparr>heap := (heap w)[r := (heap w ! r)\<lparr>CumulativeTime := Some col\<rparr>]\<rparr>"

text \<open>Reading the rows of a table together with its \<^verbatim>\<open>CumulativeTime\<close> column.\<close>

definition table_of :: "lap_frame \<Rightarrow> error + cum_lap list" where
  "table_of f = (case CumulativeTime f of
                   None \<Rightarrow> Inl MissingColumn
                 | Some col \<Rightarrow> Inr (zip (rows f) col))"

text \<open>
  \<^verbatim>\<open>groupby(key)[col].cumsum()\<close>: the running sum within each group, in row order. A
  missing value stays missing in the result and is skipped by the sum.
\<close>

fun cumsum_from :: "('k \<Rightarrow> timedelta) \<Rightarrow> ('k \<times> timedelta option) list \<Rightarrow> timedelta option list" where
  "cumsum_from acc [] = []"
| "cumsum_from acc ((k, None) # xs) = None # cumsum_from acc xs"
| "cumsum_from acc ((k, Some v) # xs) = Some (acc k + v) # cumsum_from (acc(k := acc k + v)) xs"

definition groupby_cumsum :: "'k list \<Rightarrow> timedelta option list \<Rightarrow> timedelta option list" where
  "groupby_cumsum keys vals = cumsum_from (\<lambda>_. 0) (zip keys vals)"

text \<open>\<^verbatim>\<open>groupby(key)\<close>: the groups are the distinct keys, in ascending order.\<close>

definition group_keys :: "'k::linorder list \<Rightarrow> 'k list" where
  "group_keys keys = sort (remdups keys)"

text \<open>The row positions of the group of key \<open>k\<close>, in row order.\<close>

definition group_rows :: "'k list \<Rightarrow> 'k \<Rightarrow> nat list" where
  "group_rows keys k = filter (\<lambda>i. keys ! i = k) [0..<length keys]"

text \<open>
  \<^verbatim>\<open>idxmin\<close> of one group: a scan over (label, value) that skips missing values and
  replaces the best so far only by a strictly smaller value, so the first row label
  of the minimum is returned; \<open>None\<close> when the group has no valid value.
\<close>

fun idxmin_from :: "(nat \<times> timedelta) option \<Rightarrow> (nat \<times> timedelta option) list \<Rightarrow> (nat \<times> timedelta) option" where
  "idxmin_from best [] = best"
| "idxmin_from best ((i, None) # xs) = idxmin_from best xs"
| "idxmin_from None ((i, Some v) # xs) = idxmin_from (Some (i, v)) xs"
| "idxmin_from (Some (j, u)) ((i, Some v) # xs) =
     idxmin_from (if v < u then Some (i, v) else Some (j, u)) xs"

text \<open>\<^verbatim>\<open>groupby(key)[col].idxmin()\<close>: one row label per group, in the order of the groups.\<close>

definition groupby_idxmin :: "'k::linorder list \<Rightarrow> timedelta option list \<Rightarrow> error + nat list" where
  "groupby_idxmin keys vals =
     (let best = map (\<lambda>k. idxmin_from None (map (\<lambda>i. (i, vals ! i)) (group_rows keys k)))
                     (group_keys keys)
      in if list_ex (\<lambda>b. b = None) best then Inl AllNaGroup
         else Inr (map (\<lambda>b. fst (the b)) best))"

text \<open>\<^verbatim>\<open>laps.loc[laps.groupby('LapNumber')['CumulativeTime'].idxmin()]\<close>\<close>

definition leader_laps :: "cum_lap list \<Rightarrow> error + cum_lap list" where
  "leader_laps laps_df =
     (case groupby_idxmin (map (\<lambda>(r, c). LapNumber r) laps_df) (map snd laps_df) of
        Inl e \<Rightarrow> Inl e
      | Inr idx \<Rightarrow> Inr (map (\<lambda>i. laps_df ! i) idx))"

text \<open>\<^verbatim>\<open>laps.groupby('Driver')['LapTime'].cumsum()\<close>: the column \<^verbatim>\<open>CumulativeTime\<close>.\<close>

definition cumulative_time :: "lap list \<Rightarrow> timedelta option list" where
  "cumulative_time df = groupby_cumsum (map Driver df) (map LapTime df)"

section \<open>Derived views (new\_utils.py)\<close>

text \<open>
  \<^verbatim>\<open>get_track_status_by_lap(session)\<close>: the lap number and track status of the leader's
  row of every lap number.
\<close>

definition get_track_status_by_lap :: "session \<Rightarrow> world \<Rightarrow> (error + (int \<times> string) list) \<times> world" where
  "get_track_status_by_lap session w0 =
     (let (laps_copy, w1) = copy_frame (laps session) w0;
          w2 = set_CumulativeTime laps_copy (cumulative_time (rows (heap w1 ! laps_copy))) w1
      in case table_of (heap w2 ! laps_copy) of
           Inl e \<Rightarrow> (Inl e, w2)
         | Inr laps_df \<Rightarrow>
             (case leader_laps laps_df of
                Inl e \<Rightarrow> (Inl e, w2)
              | Inr leaders \<Rightarrow> (Inr (map (\<lambda>(r, c). (LapNumber r, TrackStatus r)) leaders), w2)))"

text \<open>
  \<^verbatim>\<open>df.sort_values(by='Time')\<close>: ascending, rows without a time last. (The order that
  pandas gives to rows of equal time is not fixed; here they keep their order.)
\<close>

definition sort_values_Time :: "'a timed_scheme list \<Rightarrow> 'a timed_scheme list" where
  "sort_values_Time df =
     sort_key (\<lambda>r. the (Time r)) (filter (\<lambda>r. Time r \<noteq> None) df) @ filter (\<lambda>r. Time r = None) df"

text \<open>
  \<^verbatim>\<open>merge_asof(left, right, on='Time', direction='nearest')\<close> on tables sorted by time.
  For a left key \<open>t\<close> the backward candidate is the last right row with key \<open>\<le> t\<close>, the
  forward candidate the first right row with key \<open>\<ge> t\<close>; the backward one is taken
  unless the forward one is strictly nearer. A left row without any candidate gets no
  right row. A missing key on either side is refused.
\<close>

definition asof_backward :: "timedelta \<Rightarrow> 'b timed_scheme list \<Rightarrow> 'b timed_scheme option" where
  "asof_backward t right =
     (case takeWhile (\<lambda>s. the (Time s) \<le> t) right of [] \<Rightarrow> None | xs \<Rightarrow> Some (last xs))"

definition asof_forward :: "timedelta \<Rightarrow> 'b timed_scheme list \<Rightarrow> 'b timed_scheme option" where
  "asof_forward t right =
     (case dropWhile (\<lambda>s. the (Time s) < t) right of [] \<Rightarrow> None | s # _ \<Rightarrow> Some s)"

definition asof_nearest :: "timedelta \<Rightarrow> 'b timed_scheme list \<Rightarrow> 'b timed_scheme option" where
  "asof_nearest t right =
     (case (asof_backward t right, asof_forward t right) of
        (Some b, Some f) \<Rightarrow> Some (if t - the (Time b) \<le> the (Time f) - t then b else f)
      | (Some b, None) \<Rightarrow> Some b
      | (None, f) \<Rightarrow> f)"

definition merge_asof_nearest ::
  "'a timed_scheme list \<Rightarrow> 'b timed_scheme list \<Rightarrow> error + ('a timed_scheme \<times> 'b timed_scheme option) list" where
  "merge_asof_nearest left right =
     (if list_ex (\<lambda>r. Time r = None) left \<or> list_ex (\<lambda>s. Time s = None) right
      then Inl NullMergeKey
      else Inr (map (\<lambda>r. (r, asof_nearest (the (Time r)) right)) left))"

text \<open>The seven weather columns of the result, in the order of the column selection.\<close>

type_synonym readings = "rat \<times> rat \<times> rat \<times> bool \<times> rat \<times> int \<times> rat"

definition readings_of :: "weather_sample \<Rightarrow> readings" where
  "readings_of s =
     (AirTemp s, Humidity s, Pressure s, Rainfall s, TrackTemp s, WindDirection s, WindSpeed s)"

text \<open>
  The merged table of \<^verbatim>\<open>get_weather_data_by_lap\<close> before the column selection: each
  leader lap, by time, with the weather sample attached to it.
\<close>

definition weather_laps :: "cum_lap list \<Rightarrow> weather_sample list \<Rightarrow> error + (lap \<times> weather_sample option) list" where
  "weather_laps leaders weather =
     merge_asof_nearest (sort_values_Time (map fst leaders)) (sort_values_Time weather)"

text \<open>
  \<^verbatim>\<open>get_weather_data_by_lap(session)\<close>: per leader lap, the lap number and the readings
  of the weather sample nearest in time (no readings when there is no sample at all).
\<close>

definition get_weather_data_by_lap :: "session \<Rightarrow> world \<Rightarrow> (error + (int \<times> readings option) list) \<times> world" where
  "get_weather_data_by_lap session w0 =
     (let (laps_copy, w1) = copy_frame (laps session) w0;
          weather = weather_data session;
          w2 = set_CumulativeTime laps_copy (cumulative_time (rows (heap w1 ! laps_copy))) w1
      in case table_of (heap w2 ! laps_copy) of
           Inl e \<Rightarrow> (Inl e, w2)
         | Inr laps_df \<Rightarrow>
             (case leader_laps laps_df of
                Inl e \<Rightarrow> (Inl e, w2)
              | Inr leaders \<Rightarrow>
                  (case weather_laps leaders weather of
                     Inl e \<Rightarrow> (Inl e, w2)
                   | Inr merged \<Rightarrow>
                       (Inr (map (\<lambda>(r, s). (LapNumber r, map_option readings_of s)) merged), w2))))"

section \<open>Drawing surface\<close>

text \<open>
  What the renderers draw, as data: the shaded vertical bands (\<^verbatim>\<open>axvspan\<close>) and the
  lines (\<^verbatim>\<open>plot\<close>) of an axes object, with its texts and switches. A missing gap value
  (\<^verbatim>\<open>NaN\<close>) of a line is \<open>None\<close>. The style of a line comes from the data library.
\<close>

record span =
  xmin :: rat
  xmax :: rat
  color :: string
  alpha :: rat

record 'sty line =
  label :: string
  xdata :: "int list"
  ydata :: "rat option list"
  style :: 'sty

record 'sty axes =
  title :: string
  xlabel :: string
  ylabel :: string
  spans :: "span list"
  lines :: "'sty line list"
  legend :: bool
  grid :: bool
  yaxis_inverted :: bool

text \<open>\<^verbatim>\<open>plt.subplots(...)\<close>: a new, empty axes object.\<close>

definition subplots :: "'sty axes" where
  "subplots = \<lparr>title = [], xlabel = [], ylabel = [], spans = [], lines = [],
               legend = False, grid = False, yaxis_inverted = False\<rparr>"

text \<open>\<^verbatim>\<open>ax.axvspan(lo, hi, color=c, alpha=a)\<close>\<close>

definition axvspan :: "rat \<Rightarrow> rat \<Rightarrow> string \<Rightarrow> rat \<Rightarrow> 'sty axes \<Rightarrow> 'sty axes" where
  "axvspan lo hi c a ax = ax\<lparr>spans := spans ax @ [\<lparr>xmin = lo, xmax = hi, color = c, alpha = a\<rparr>]\<rparr>"

text \<open>
  What the renderers take from outside this repository: the mean of a non-empty group
  of \<^verbatim>\<open>Timedelta\<close> values (pandas computes it in floating point, so its rounding is left
  open), and the data library's style of a driver.
\<close>

record 'sty externals =
  td_mean :: "timedelta list \<Rightarrow> timedelta"
  get_driver_style :: "string \<Rightarrow> 'sty"

section \<open>Chart renderers (standard\_plots.py)\<close>

text \<open>\<^verbatim>\<open>Series.isin(values)\<close>: membership by equality with one of the listed values.\<close>

definition isin :: "'a \<Rightarrow> 'a list \<Rightarrow> bool" where
  "isin x values = (x \<in> set values)"

text \<open>
  \<^verbatim>\<open>plot_track_status_highlights(ax, session)\<close>: a band from \<open>lap - 0.5\<close> to \<open>lap + 0.5\<close>
  for each lap of the leader's view under Safety Car (yellow), then for each lap under
  Virtual Safety Car (orange). The function returns nothing and changes \<open>ax\<close>; here the
  changed \<open>ax\<close> is the result.
\<close>

definition plot_track_status_highlights :: "'sty axes \<Rightarrow> session \<Rightarrow> world \<Rightarrow> (error + 'sty axes) \<times> world" where
  "plot_track_status_highlights ax session w0 =
     (case get_track_status_by_lap session w0 of
        (Inl e, w1) \<Rightarrow> (Inl e, w1)
      | (Inr track_status_df, w1) \<Rightarrow>
          (let sc_laps = map fst (filter (\<lambda>(n, st). isin st [''4'']) track_status_df);
               vsc_laps = map fst (filter (\<lambda>(n, st). isin st [''6'', ''7'']) track_status_df);
               ax = fold (\<lambda>lap. axvspan (of_int lap - 1 / 2) (of_int lap + 1 / 2) ''yellow'' (3 / 10))
                         sc_laps ax;
               ax = fold (\<lambda>lap. axvspan (of_int lap - 1 / 2) (of_int lap + 1 / 2) ''orange'' (3 / 10))
                         vsc_laps ax
           in (Inr ax, w1)))"

text \<open>\<^verbatim>\<open>Series.unique()\<close>: the distinct values in the order of their first appearance.\<close>

definition unique :: "'a list \<Rightarrow> 'a list" where
  "unique xs = rev (remdups (rev xs))"

text \<open>
  \<^verbatim>\<open>groupby(key)[col].mean()\<close>: per group the mean of the values that are present,
  missing when none is.
\<close>

definition groupby_mean ::
  "(timedelta list \<Rightarrow> timedelta) \<Rightarrow> 'k::linorder list \<Rightarrow> timedelta option list \<Rightarrow> ('k \<times> timedelta option) list" where
  "groupby_mean mean keys vals =
     map (\<lambda>k. (k, case List.map_filter (\<lambda>i. vals ! i) (group_rows keys k) of
                     [] \<Rightarrow> None
                   | vs \<Rightarrow> Some (mean vs)))
         (group_keys keys)"

text \<open>\<^verbatim>\<open>df.set_index('LapNumber')['CumulativeTime']\<close>: a series of times, indexed by lap number.\<close>

definition set_index_LapNumber :: "cum_lap list \<Rightarrow> (int \<times> timedelta option) list" where
  "set_index_LapNumber df = map (\<lambda>(r, c). (LapNumber r, c)) df"

text \<open>
  The reference series of \<^verbatim>\<open>plot_race_trace\<close> with the title and the label of the
  vertical axis (the \<^verbatim>\<open>if\<close> / \<^verbatim>\<open>elif\<close> / \<^verbatim>\<open>else\<close> on \<^verbatim>\<open>relative_to\<close>); \<open>Inr None\<close> when the
  driver named as reference has no laps.
\<close>

definition race_trace_reference ::
  "'sty externals \<Rightarrow> cum_lap list \<Rightarrow> string \<Rightarrow> error + ((int \<times> timedelta option) list \<times> string \<times> string) option" where
  "race_trace_reference ext laps_df relative_to =
     (if relative_to = ''average'' then
        Inr (Some (groupby_mean (td_mean ext) (map (\<lambda>(r, c). LapNumber r) laps_df) (map snd laps_df),
                   ''Race Progression Relative to Average'', ''Time Delta to Average (s)''))
      else if relative_to = ''leader'' then
        (case leader_laps laps_df of
           Inl e \<Rightarrow> Inl e
         | Inr leaders \<Rightarrow>
             Inr (Some (set_index_LapNumber leaders, ''Race Gaps to Leader'', ''Gap to Leader (s)'')))
      else
        (let driver_laps = filter (\<lambda>(r, c). Driver r = relative_to) laps_df
         in if driver_laps = [] then Inr None
            else Inr (Some (set_index_LapNumber driver_laps,
                            ''Race Gaps Relative to '' @ relative_to,
                            ''Gap to '' @ relative_to @ '' (s)''))))"

text \<open>
  \<^verbatim>\<open>pd.merge(left, right, on='LapNumber', how='inner')\<close>: for each left row, in order, one
  row per right row of the same lap number.
\<close>

definition merge_on_LapNumber ::
  "cum_lap list \<Rightarrow> (int \<times> timedelta option) list \<Rightarrow> (int \<times> timedelta option \<times> timedelta option) list" where
  "merge_on_LapNumber driver_laps reference_times =
     concat (map (\<lambda>(r, c). map (\<lambda>(n, ref). (LapNumber r, c, ref))
                               (filter (\<lambda>(n, ref). n = LapNumber r) reference_times))
                 driver_laps)"

text \<open>The difference of two times; missing when either is.\<close>

definition td_sub :: "timedelta option \<Rightarrow> timedelta option \<Rightarrow> timedelta option" where
  "td_sub a b = (case (a, b) of (Some x, Some y) \<Rightarrow> Some (x - y) | _ \<Rightarrow> None)"

text \<open>
  \<^verbatim>\<open>.dt.total_seconds()\<close>: nanoseconds as seconds. (pandas returns the floating-point
  number nearest to this value; zero is exact.)
\<close>

definition total_seconds :: "timedelta \<Rightarrow> rat" where
  "total_seconds t = of_int t / 1000000000"

text \<open>\<^verbatim>\<open>gaps_df\<close>: the merged rows as (lap number, gap in seconds).\<close>

definition gaps_df :: "cum_lap list \<Rightarrow> (int \<times> timedelta option) list \<Rightarrow> (int \<times> rat option) list" where
  "gaps_df driver_laps reference_times =
     map (\<lambda>(n, c, ref). (n, map_option total_seconds (td_sub c ref)))
         (merge_on_LapNumber driver_laps reference_times)"

text \<open>The body of the loop over the drivers of \<^verbatim>\<open>plot_race_trace\<close>.\<close>

definition plot_driver_gaps ::
  "'sty externals \<Rightarrow> cum_lap list \<Rightarrow> (int \<times> timedelta option) list \<Rightarrow> string \<Rightarrow> 'sty axes \<Rightarrow> 'sty axes" where
  "plot_driver_gaps ext laps_df reference_times driver ax =
     (let driver_laps = filter (\<lambda>(r, c). Driver r = driver) laps_df
      in if driver_laps \<noteq> [] then
           (let gaps = gaps_df driver_laps reference_times
            in ax\<lparr>lines := lines ax @
                    [\<lparr>label = driver, xdata = map fst gaps, ydata = map snd gaps,
                      style = get_driver_style ext driver\<rparr>]\<rparr>)
         else ax)"

text \<open>
  \<^verbatim>\<open>plot_race_trace(session, relative_to, drivers_to_plot)\<close>. The result is \<open>Inr None\<close>
  where the function returns without a figure, \<open>Inr (Some ax)\<close> where it returns the
  figure. (The loop that turns columns of booleans stored as objects into boolean
  columns touches none of the columns read afterwards and is left out.)
\<close>

definition plot_race_trace ::
  "'sty externals \<Rightarrow> session \<Rightarrow> string \<Rightarrow> string list option \<Rightarrow> world \<Rightarrow> (error + 'sty axes option) \<times> world" where
  "plot_race_trace ext session relative_to drivers_to_plot w0 =
     (let (laps_copy, w1) = copy_frame (laps session) w0;
          w2 = set_CumulativeTime laps_copy (cumulative_time (rows (heap w1 ! laps_copy))) w1
      in case table_of (heap w2 ! laps_copy) of
           Inl e \<Rightarrow> (Inl e, w2)
         | Inr laps_df \<Rightarrow>
             (case race_trace_reference ext laps_df relative_to of
                Inl e \<Rightarrow> (Inl e, w2)
              | Inr None \<Rightarrow>
                  (Inr None, w2\<lparr>stdout := stdout w2 @ [''Driver '' @ relative_to @ '' not found.'']\<rparr>)
              | Inr (Some (reference_times, title_text, ylabel_text)) \<Rightarrow>
                  (let ax = subplots\<lparr>title := title_text, xlabel := ''Lap Number'',
                                     ylabel := ylabel_text\<rparr>
                   in case plot_track_status_highlights ax session w2 of
                        (Inl e, w3) \<Rightarrow> (Inl e, w3)
                      | (Inr ax, w3) \<Rightarrow>
                          (let driver_abbreviations =
                                 (case drivers_to_plot of
                                    None \<Rightarrow> unique (map (\<lambda>(r, c). Driver r) laps_df)
                                  | Some ds \<Rightarrow>
                                      if ds = [] then unique (map (\<lambda>(r, c). Driver r) laps_df)
                                      else ds);
                               ax = fold (plot_driver_gaps ext laps_df reference_times)
                                         driver_abbreviations ax;
                               ax = ax\<lparr>legend := True, grid := True,
                                       yaxis_inverted := \<not> yaxis_inverted ax\<rparr>
                           in (Inr (Some ax), w3)))))"

text \<open>
  The stints of \<^verbatim>\<open>plot_tyre_strategy\<close>: the rows are grouped by (driver, stint, compound),
  rows without a stint or a compound belong to no group, and every group gives its
  least and its greatest lap number.
\<close>

definition stint_key :: "lap \<Rightarrow> (string \<times> int \<times> string) option" where
  "stint_key r = (case (Stint r, Compound r) of
                    (Some st, Some cp) \<Rightarrow> Some (Driver r, st, cp)
                  | _ \<Rightarrow> None)"

definition tyre_stints :: "lap list \<Rightarrow> ((string \<times> int \<times> string) \<times> int \<times> int) list" where
  "tyre_stints laps_df =
     map (\<lambda>k. (k, Min (set (map LapNumber (filter (\<lambda>r. stint_key r = Some k) laps_df))),
                  Max (set (map LapNumber (filter (\<lambda>r. stint_key r = Some k) laps_df)))))
         (group_keys (List.map_filter stint_key laps_df))"

text \<open>\<^verbatim>\<open>stints[stints['Driver'].isin(drivers_to_plot)]\<close>\<close>

definition stints_to_plot ::
  "((string \<times> int \<times> string) \<times> int \<times> int) list \<Rightarrow> string list \<Rightarrow> ((string \<times> int \<times> string) \<times> int \<times> int) list" where
  "stints_to_plot stints drivers_to_plot = filter (\<lambda>((d, st, cp), lo, hi). isin d drivers_to_plot) stints"

text \<open>\<^verbatim>\<open>stints[stints['Driver'] == driver]\<close>\<close>

definition driver_stints ::
  "((string \<times> int \<times> string) \<times> int \<times> int) list \<Rightarrow> string \<Rightarrow> ((string \<times> int \<times> string) \<times> int \<times> int) list" where
  "driver_stints stints driver = filter (\<lambda>((d, st, cp), lo, hi). d = driver) stints"

section \<open>Lap-time renderer: the per-driver filters\<close>

text \<open>\<^verbatim>\<open>laps.pick_drivers(driver)\<close> for a driver abbreviation.\<close>

definition pick_drivers :: "string \<Rightarrow> lap list \<Rightarrow> lap list" where
  "pick_drivers driver laps_df = filter (\<lambda>r. Driver r = driver) laps_df"

text \<open>\<^verbatim>\<open>driver_laps[driver_laps['LapNumber'] > 1]\<close>\<close>

definition exclude_first_lap :: "lap list \<Rightarrow> lap list" where
  "exclude_first_lap driver_laps = filter (\<lambda>r. LapNumber r > 1) driver_laps"

text \<open>\<^verbatim>\<open>driver_laps[~driver_laps['TrackStatus'].isin(['4', '6', '7'])]\<close>\<close>

definition exclude_safety_car_laps :: "lap list \<Rightarrow> lap list" where
  "exclude_safety_car_laps driver_laps =
     filter (\<lambda>r. \<not> isin (TrackStatus r) [''4'', ''6'', ''7'']) driver_laps"

text \<open>\<^verbatim>\<open>driver_laps.loc[driver_laps['PitInTime'].isnull() & driver_laps['PitOutTime'].isnull()]\<close>\<close>

definition exclude_pit_laps :: "lap list \<Rightarrow> lap list" where
  "exclude_pit_laps driver_laps =
     filter (\<lambda>r. PitInTime r = None \<and> PitOutTime r = None) driver_laps"

text \<open>
  The body of the loop of \<^verbatim>\<open>plot_lap_times\<close> up to the drawing call: the laps of one
  driver that are left after the filters that are switched on, applied in the order
  first lap, safety car, pit.
\<close>

definition lap_times_driver_laps :: "bool \<Rightarrow> bool \<Rightarrow> bool \<Rightarrow> lap list \<Rightarrow> string \<Rightarrow> lap list" where
  "lap_times_driver_laps ignore_pit_laps ignore_safety_car_laps ignore_first_lap laps_df driver =
     (let driver_laps = pick_drivers driver laps_df;
          driver_laps = (if ignore_first_lap then exclude_first_lap driver_laps else driver_laps);
          driver_laps = (if ignore_safety_car_laps then exclude_safety_car_laps driver_laps
                         else driver_laps);
          driver_laps = (if ignore_pit_laps then exclude_pit_laps driver_laps else driver_laps)
      in driver_laps)"

section \<open>Vocabulary of the properties\<close>

text \<open>The rows of the session's own lap table.\<close>

definition session_laps :: "session \<Rightarrow> world \<Rightarrow> lap list" where
  "session_laps session w = rows (heap w ! laps session)"

text \<open>A reference to a lap table is valid when the heap holds a table for it.\<close>

definition valid_session :: "session \<Rightarrow> world \<Rightarrow> bool" where
  "valid_session session w = (laps session < length (heap w))"

text \<open>The lap table with the column \<^verbatim>\<open>CumulativeTime\<close> as the functions compute it.\<close>

definition with_cumulative_time :: "lap list \<Rightarrow> cum_lap list" where
  "with_cumulative_time df = zip df (cumulative_time df)"

text \<open>
  The running sum of lap durations per driver, in the spec's words: the sum of the
  durations of the laps of the driver of row \<open>i\<close>, up to and including row \<open>i\<close> (a
  lap without a duration adds nothing).
\<close>

definition running_sum :: "lap list \<Rightarrow> nat \<Rightarrow> timedelta" where
  "running_sum df i =
     sum_list (map (\<lambda>r. case LapTime r of None \<Rightarrow> 0 | Some v \<Rightarrow> v)
                   (filter (\<lambda>r. Driver r = Driver (df ! i)) (take (Suc i) df)))"

text \<open>
  Row \<open>i\<close> is the leader's row of its lap number: it has a cumulative time, no row of
  the same lap number has a smaller one, and every earlier row of the same lap number
  has a strictly larger one (rows without a cumulative time do not compete).
\<close>

definition is_leader_row :: "cum_lap list \<Rightarrow> nat \<Rightarrow> bool" where
  "is_leader_row df i =
     (case snd (df ! i) of
        None \<Rightarrow> False
      | Some v \<Rightarrow>
          list_all (\<lambda>j. LapNumber (fst (df ! j)) = LapNumber (fst (df ! i)) \<longrightarrow>
                        (case snd (df ! j) of
                           None \<Rightarrow> True
                         | Some u \<Rightarrow> v \<le> u \<and> (j < i \<longrightarrow> v < u)))
                   [0..<length df])"

text \<open>
  Row \<open>i\<close> leads its lap number, in the spec's words and without reference to the column
  the code computes: the row has a lap duration, no row of the same lap number that has
  a lap duration has a smaller running sum, and every earlier such row has a strictly
  larger one.
\<close>

definition leads_lap :: "lap list \<Rightarrow> nat \<Rightarrow> bool" where
  "leads_lap df i =
     (LapTime (df ! i) \<noteq> None \<and>
      list_all (\<lambda>j. LapNumber (df ! j) = LapNumber (df ! i) \<and> LapTime (df ! j) \<noteq> None \<longrightarrow>
                    running_sum df i \<le> running_sum df j \<and> (j < i \<longrightarrow> running_sum df i < running_sum df j))
               [0..<length df])"

text \<open>Some row of lap number \<open>n\<close> has a cumulative time.\<close>

definition lap_number_timed :: "cum_lap list \<Rightarrow> int \<Rightarrow> bool" where
  "lap_number_timed df n = list_ex (\<lambda>(r, c). LapNumber r = n \<and> c \<noteq> None) df"

text \<open>
  Sample \<open>smp\<close> of the weather table is nearest in time to \<open>t\<close>: no sample of the table
  has a timestamp with a smaller absolute difference to \<open>t\<close>.
\<close>

definition nearest_sample :: "weather_sample list \<Rightarrow> timedelta \<Rightarrow> weather_sample \<Rightarrow> bool" where
  "nearest_sample weather t smp =
     (list_ex (\<lambda>s. s = smp) weather \<and>
      (case Time smp of
         None \<Rightarrow> False
       | Some ts \<Rightarrow>
           list_all (\<lambda>s. case Time s of None \<Rightarrow> True | Some ts' \<Rightarrow> \<bar>ts - t\<bar> \<le> \<bar>ts' - t\<bar>)
                    weather))"

text \<open>The positions of the rows of driver \<open>d\<close> in the lap table, in row order.\<close>

definition driver_rows :: "lap list \<Rightarrow> string \<Rightarrow> nat list" where
  "driver_rows df d = filter (\<lambda>i. Driver (df ! i) = d) [0..<length df]"

text \<open>The line that \<^verbatim>\<open>plot_race_trace\<close> draws for driver \<open>d\<close>, if it draws one.\<close>

definition line_of :: "'sty axes \<Rightarrow> string \<Rightarrow> 'sty line option" where
  "line_of ax d = find (\<lambda>l. label l = d) (lines ax)"

text \<open>The lap numbers of the rows of the group (driver, stint, compound) \<open>k\<close>.\<close>

definition stint_laps :: "lap list \<Rightarrow> string \<times> int \<times> string \<Rightarrow> int set" where
  "stint_laps df k = LapNumber ` set (filter (\<lambda>r. stint_key r = Some k) df)"

text \<open>The lap numbers covered by the spans [min, max] of a list of stints.\<close>

definition covered_laps :: "('k \<times> int \<times> int) list \<Rightarrow> int set" where
  "covered_laps stints = (\<Union>(k, lo, hi)\<in>set stints. {lo..hi})"

section \<open>Example sessions\<close>

text \<open>A lap row with the columns that vary in the examples; one stint on one compound, no pit stop.\<close>

definition lap_row :: "string \<Rightarrow> int \<Rightarrow> timedelta option \<Rightarrow> timedelta option \<Rightarrow> string \<Rightarrow> lap" where
  "lap_row d n t tm st =
     \<lparr>Time = tm, Driver = d, LapNumber = n, LapTime = t, Stint = Some 1,
      Compound = Some ''SOFT'', PitInTime = None, PitOutTime = None, TrackStatus = st\<rparr>"

text \<open>
  The session of the spec's example: driver A with laps 1 to 3 in 90, 91 and 89, driver B
  with laps 1 to 3 in 92, 88 and 90; A's rows come first.
\<close>

definition example_laps :: "lap list" where
  "example_laps =
     [lap_row ''A'' 1 (Some 90) (Some 90) ''1'',
      lap_row ''A'' 2 (Some 91) (Some 181) ''1'',
      lap_row ''A'' 3 (Some 89) (Some 270) ''4'',
      lap_row ''B'' 1 (Some 92) (Some 92) ''1'',
      lap_row ''B'' 2 (Some 88) (Some 180) ''6'',
      lap_row ''B'' 3 (Some 90) (Some 270) ''7'']"

definition weather_row :: "timedelta \<Rightarrow> rat \<Rightarrow> weather_sample" where
  "weather_row tm air =
     \<lparr>Time = Some tm, AirTemp = air, Humidity = 40, Pressure = 1013, Rainfall = False,
      TrackTemp = 35, WindDirection = 180, WindSpeed = 2\<rparr>"

definition example_weather :: "weather_sample list" where
  "example_weather = [weather_row 60 21, weather_row 120 22, weather_row 240 23]"

definition example_session :: session where
  "example_session = \<lparr>laps = 0, weather_data = example_weather\<rparr>"

definition example_world :: world where
  "example_world = \<lparr>heap = [\<lparr>rows = example_laps, CumulativeTime = None\<rparr>], stdout = []\<rparr>"

text \<open>
  A session in which the shortest second lap is not the leader's: A laps in 50 and 80,
  B in 100 and 60, so that A leads lap 2 at 130 although B's second lap is shorter.
  The weather is sampled at 50, 100, 130 and 160.
\<close>

definition slow_leader_laps :: "lap list" where
  "slow_leader_laps =
     [lap_row ''A'' 1 (Some 50) (Some 50) ''1'',
      lap_row ''A'' 2 (Some 80) (Some 130) ''1'',
      lap_row ''B'' 1 (Some 100) (Some 100) ''1'',
      lap_row ''B'' 2 (Some 60) (Some 160) ''1'']"

definition slow_leader_session :: session where
  "slow_leader_session =
     \<lparr>laps = 0,
      weather_data = [weather_row 50 20, weather_row 100 21, weather_row 130 22, weather_row 160 23]\<rparr>"

definition slow_leader_world :: world where
  "slow_leader_world = \<lparr>heap = [\<lparr>rows = slow_leader_laps, CumulativeTime = None\<rparr>], stdout = []\<rparr>"

text \<open>A session whose only lap has no lap time.\<close>

definition untimed_world :: world where
  "untimed_world =
     \<lparr>heap = [\<lparr>rows = [lap_row ''A'' 1 None (Some 95) ''1''], CumulativeTime = None\<rparr>],
      stdout = []\<rparr>"

text \<open>A session whose track-status codes are composite: several codes in one string.\<close>

definition composite_laps :: "lap list" where
  "composite_laps =
     [lap_row ''A'' 1 (Some 90) (Some 90) ''45'',
      lap_row ''A'' 2 (Some 91) (Some 181) ''67'',
      lap_row ''A'' 3 (Some 89) (Some 270) ''124'']"

definition composite_world :: world where
  "composite_world = \<lparr>heap = [\<lparr>rows = composite_laps, CumulativeTime = None\<rparr>], stdout = []\<rparr>"

text \<open>Collaborators for the examples: the mean rounded down, and no style to speak of.\<close>

definition example_externals :: "unit externals" where
  "example_externals =
     \<lparr>td_mean = (\<lambda>vs. sum_list vs div int (length vs)), get_driver_style = (\<lambda>d. ())\<rparr>"

text \<open>A lap row of the tyre-strategy examples: driver, lap number, stint and compound.\<close>

definition stint_row :: "string \<Rightarrow> int \<Rightarrow> int option \<Rightarrow> string option \<Rightarrow> lap" where
  "stint_row d n st cp =
     \<lparr>Time = None, Driver = d, LapNumber = n, LapTime = None, Stint = st,
      Compound = cp, PitInTime = None, PitOutTime = None, TrackStatus = ''1''\<rparr>"

text \<open>Two stints of one driver and one of another.\<close>

definition two_stint_laps :: "lap list" where
  "two_stint_laps =
     [stint_row ''A'' 1 (Some 1) (Some ''SOFT''),
      stint_row ''A'' 2 (Some 1) (Some ''SOFT''),
      stint_row ''B'' 1 (Some 1) (Some ''MEDIUM''),
      stint_row ''A'' 3 (Some 2) (Some ''HARD''),
      stint_row ''A'' 4 (Some 2) (Some ''HARD''),
      stint_row ''B'' 2 (Some 1) (Some ''MEDIUM'')]"

text \<open>A driver whose second lap has no compound on record.\<close>

definition uncompounded_laps :: "lap list" where
  "uncompounded_laps =
     [stint_row ''A'' 1 (Some 1) (Some ''SOFT''),
      stint_row ''A'' 2 (Some 1) None]"

text \<open>A driver whose stint has no row for lap 3.\<close>

definition gapped_laps :: "lap list" where
  "gapped_laps =
     [stint_row ''A'' 1 (Some 1) (Some ''SOFT''),
      stint_row ''A'' 2 (Some 1) (Some ''SOFT''),
      stint_row ''A'' 4 (Some 1) (Some ''SOFT'')]"

section \<open>Properties\<close>

subsection \<open>Lap-time filters\<close>

lemma filter_swap: "filter P (filter Q xs) = filter Q (filter P xs)"
  by (induction xs) simp_all

lemma exclude_first_pit:
  "exclude_first_lap (exclude_pit_laps xs) = exclude_pit_laps (exclude_first_lap xs)"
  unfolding exclude_first_lap_def exclude_pit_laps_def by (rule filter_swap)

lemma exclude_first_safety_car:
  "exclude_first_lap (exclude_safety_car_laps xs) = exclude_safety_car_laps (exclude_first_lap xs)"
  unfolding exclude_first_lap_def exclude_safety_car_laps_def by (rule filter_swap)

lemma exclude_pit_safety_car:
  "exclude_pit_laps (exclude_safety_car_laps xs) = exclude_safety_car_laps (exclude_pit_laps xs)"
  unfolding exclude_pit_laps_def exclude_safety_car_laps_def by (rule filter_swap)

text \<open>
  Claim C6. In \<^verbatim>\<open>plot_lap_times\<close>, for every lap list of a driver and every pair of the
  three exclusion filters (first lap, pit-affected laps, Safety Car / Virtual Safety
  Car laps), applying the two filters in either order retains the same laps, in the
  same order.
\<close>

theorem lap_filters_commute:
  "exclude_first_lap (exclude_pit_laps driver_laps)
     = exclude_pit_laps (exclude_first_lap driver_laps)
   \<and> exclude_first_lap (exclude_safety_car_laps driver_laps)
     = exclude_safety_car_laps (exclude_first_lap driver_laps)
   \<and> exclude_pit_laps (exclude_safety_car_laps driver_laps)
     = exclude_safety_car_laps (exclude_pit_laps driver_laps)"
  using exclude_first_pit exclude_first_safety_car exclude_pit_safety_car by blast

subsection \<open>Scans, groups and the leader's rows\<close>

lemma idxmin_from_None_iff:
  "idxmin_from best xs = None \<longleftrightarrow> best = None \<and> (\<forall>(i, x) \<in> set xs. x = None)"
  by (induction best xs rule: idxmin_from.induct) auto

lemma idxmin_from_sound:
  assumes "sorted_wrt (<) (map fst xs)"
    and "\<And>b bv j x. best = Some (b, bv) \<Longrightarrow> (j, x) \<in> set xs \<Longrightarrow> b < j"
    and "idxmin_from best xs = Some (m, mv)"
  shows "(best = Some (m, mv) \<or> (m, Some mv) \<in> set xs)
       \<and> (\<forall>j u. (j, Some u) \<in> set xs \<longrightarrow> mv \<le> u \<and> (j < m \<longrightarrow> mv < u))
       \<and> (\<forall>b bv. best = Some (b, bv) \<longrightarrow> mv \<le> bv \<and> (b < m \<longrightarrow> mv < bv))"
  using assms
proof (induction best xs rule: idxmin_from.induct)
  case (1 best)
  then show ?case by auto
next
  case (2 best i xs)
  then show ?case by force
next
  case (3 i v xs)
  then show ?case by force
next
  case (4 j u i v xs)
  have srt: "sorted_wrt (<) (map fst xs)" and lt: "\<And>k x. (k, x) \<in> set xs \<Longrightarrow> i < k" and ji: "j < i"
    using "4.prems"(1,2) by force+
  show ?case
  proof (cases "v < u")
    case True
    then have res: "idxmin_from (Some (i, v)) xs = Some (m, mv)"
      using "4.prems"(3) by simp
    have "(Some (i, v) = Some (m, mv) \<or> (m, Some mv) \<in> set xs)
       \<and> (\<forall>j u. (j, Some u) \<in> set xs \<longrightarrow> mv \<le> u \<and> (j < m \<longrightarrow> mv < u))
       \<and> (\<forall>b bv. Some (i, v) = Some (b, bv) \<longrightarrow> mv \<le> bv \<and> (b < m \<longrightarrow> mv < bv))"
      using "4.IH"[of ] True srt lt res by force
    then show ?thesis using True ji by force
  next
    case False
    then have res: "idxmin_from (Some (j, u)) xs = Some (m, mv)"
      using "4.prems"(3) by simp
    have "(Some (j, u) = Some (m, mv) \<or> (m, Some mv) \<in> set xs)
       \<and> (\<forall>j u. (j, Some u) \<in> set xs \<longrightarrow> mv \<le> u \<and> (j < m \<longrightarrow> mv < u))
       \<and> (\<forall>b bv. Some (j, u) = Some (b, bv) \<longrightarrow> mv \<le> bv \<and> (b < m \<longrightarrow> mv < bv))"
      using "4.IH" False srt lt ji res by force
    then show ?thesis using False ji lt by force
  qed
qed

lemma group_rows_set: "set (group_rows keys k) = {i. i < length keys \<and> keys ! i = k}"
  by (auto simp: group_rows_def)

lemma group_rows_sorted: "sorted_wrt (<) (group_rows keys k)"
  unfolding group_rows_def by (rule sorted_wrt_filter) simp

lemma group_keys_set: "set (group_keys keys) = set keys"
  by (simp add: group_keys_def)

lemma group_keys_strict: "sorted_wrt (<) (group_keys keys)"
  by (simp add: group_keys_def strict_sorted_iff)

lemma idxmin_group:
  assumes "idxmin_from None (map (\<lambda>i. (i, vals ! i)) (group_rows keys k)) = Some (m, mv)"
  shows "m < length keys \<and> keys ! m = k \<and> vals ! m = Some mv
       \<and> (\<forall>j<length keys. keys ! j = k \<longrightarrow>
            (\<forall>u. vals ! j = Some u \<longrightarrow> mv \<le> u \<and> (j < m \<longrightarrow> mv < u)))"
proof -
  let ?xs = "map (\<lambda>i. (i, vals ! i)) (group_rows keys k)"
  have s: "sorted_wrt (<) (map fst ?xs)"
    using group_rows_sorted[of keys k] by (simp add: comp_def)
  have mem: "\<And>j x. (j, x) \<in> set ?xs \<longleftrightarrow> j < length keys \<and> keys ! j = k \<and> x = vals ! j"
    using group_rows_set[of keys k] by auto
  from idxmin_from_sound[OF s _ assms]
  have "(m, Some mv) \<in> set ?xs"
    and "\<forall>j u. (j, Some u) \<in> set ?xs \<longrightarrow> mv \<le> u \<and> (j < m \<longrightarrow> mv < u)"
    by simp_all
  then show ?thesis unfolding mem by metis
qed

lemma idxmin_group_None:
  "idxmin_from None (map (\<lambda>i. (i, vals ! i)) (group_rows keys k)) = None
     \<longleftrightarrow> (\<forall>j<length keys. keys ! j = k \<longrightarrow> vals ! j = None)"
  unfolding idxmin_from_None_iff using group_rows_set[of keys k] by auto

lemma groupby_idxmin_Inl:
  "groupby_idxmin keys vals = Inl e \<longleftrightarrow>
     e = AllNaGroup \<and> (\<exists>k\<in>set keys. \<forall>j<length keys. keys ! j = k \<longrightarrow> vals ! j = None)"
proof -
  let ?f = "\<lambda>k. idxmin_from None (map (\<lambda>i. (i, vals ! i)) (group_rows keys k))"
  have "list_ex (\<lambda>b. b = None) (map ?f (group_keys keys)) \<longleftrightarrow> (\<exists>k\<in>set keys. ?f k = None)"
    unfolding list_ex_iff set_map group_keys_set by blast
  also have "\<dots> \<longleftrightarrow> (\<exists>k\<in>set keys. \<forall>j<length keys. keys ! j = k \<longrightarrow> vals ! j = None)"
    by (simp only: idxmin_group_None)
  finally show ?thesis
    unfolding groupby_idxmin_def Let_def by auto
qed

lemma groupby_idxmin_Inr:
  assumes "groupby_idxmin keys vals = Inr idx"
  shows "length idx = length (group_keys keys)"
    and "p < length idx \<Longrightarrow> idx ! p < length keys \<and> keys ! (idx ! p) = group_keys keys ! p
       \<and> (\<exists>mv. vals ! (idx ! p) = Some mv
           \<and> (\<forall>j<length keys. keys ! j = group_keys keys ! p \<longrightarrow>
                (\<forall>u. vals ! j = Some u \<longrightarrow> mv \<le> u \<and> (j < idx ! p \<longrightarrow> mv < u))))"
proof -
  let ?best = "map (\<lambda>k. idxmin_from None (map (\<lambda>i. (i, vals ! i)) (group_rows keys k))) (group_keys keys)"
  from assms have nn: "\<not> list_ex (\<lambda>b. b = None) ?best" and idx: "idx = map (\<lambda>b. fst (the b)) ?best"
    by (auto simp: groupby_idxmin_def Let_def split: if_splits)
  show len: "length idx = length (group_keys keys)" by (simp add: idx)
  assume p: "p < length idx"
  let ?k = "group_keys keys ! p"
  have "?best ! p \<noteq> None" using nn p len unfolding list_ex_iff by (metis length_map nth_mem)
  then obtain m mv where b: "?best ! p = Some (m, mv)" by (cases "?best ! p") auto
  then have "idxmin_from None (map (\<lambda>i. (i, vals ! i)) (group_rows keys ?k)) = Some (m, mv)"
    using p len by simp
  from idxmin_group[OF this] have *: "m < length keys \<and> keys ! m = ?k \<and> vals ! m = Some mv
       \<and> (\<forall>j<length keys. keys ! j = ?k \<longrightarrow>
            (\<forall>u. vals ! j = Some u \<longrightarrow> mv \<le> u \<and> (j < m \<longrightarrow> mv < u)))" .
  have "idx ! p = m" using b p len by (simp add: idx)
  with * show "idx ! p < length keys \<and> keys ! (idx ! p) = group_keys keys ! p
       \<and> (\<exists>mv. vals ! (idx ! p) = Some mv
           \<and> (\<forall>j<length keys. keys ! j = group_keys keys ! p \<longrightarrow>
                (\<forall>u. vals ! j = Some u \<longrightarrow> mv \<le> u \<and> (j < idx ! p \<longrightarrow> mv < u))))" by blast
qed

lemma length_cumsum_from: "length (cumsum_from acc xs) = length xs"
  by (induction acc xs rule: cumsum_from.induct) (simp_all add: fun_upd_def)

lemma length_cumulative_time: "length (cumulative_time df) = length df"
  by (simp add: cumulative_time_def groupby_cumsum_def length_cumsum_from)

lemma cumsum_from_nth:
  "i < length xs \<Longrightarrow>
   cumsum_from acc xs ! i =
     map_option (\<lambda>_. acc (fst (xs ! i)) +
        sum_list (map (\<lambda>(k, x). case x of None \<Rightarrow> 0 | Some v \<Rightarrow> v)
                      (filter (\<lambda>(k, x). k = fst (xs ! i)) (take (Suc i) xs))))
       (snd (xs ! i))"
proof (induction acc xs arbitrary: i rule: cumsum_from.induct)
  case (1 acc)
  then show ?case by simp
next
  case (2 acc k xs)
  then show ?case by (cases i) (auto)
next
  case (3 acc k v xs)
  show ?case
  proof (cases i)
    case 0
    then show ?thesis by simp
  next
    case (Suc n)
    then have n: "n < length xs" using "3.prems" by simp
    show ?thesis
      using "3.IH"[OF n] Suc
      by (cases "snd (xs ! n)") (simp_all add: fun_upd_def)
  qed
qed

lemma cumulative_time_nth:
  assumes "i < length df"
  shows "cumulative_time df ! i = map_option (\<lambda>_. running_sum df i) (LapTime (df ! i))"
proof -
  let ?xs = "zip (map Driver df) (map LapTime df)"
  have xs: "?xs = map (\<lambda>r. (Driver r, LapTime r)) df" by (simp add: zip_map_map zip_same_conv_map)
  have "filter (\<lambda>(k, x). k = Driver (df ! i)) (take (Suc i) ?xs)
      = map (\<lambda>r. (Driver r, LapTime r)) (filter (\<lambda>r. Driver r = Driver (df ! i)) (take (Suc i) df))"
    unfolding xs by (simp add: take_map filter_map comp_def)
  then show ?thesis
    using assms cumsum_from_nth[of i ?xs "\<lambda>_. 0"]
    by (simp add: cumulative_time_def groupby_cumsum_def running_sum_def xs comp_def)
qed

lemma length_with_cumulative_time: "length (with_cumulative_time df) = length df"
  by (simp add: with_cumulative_time_def length_cumulative_time)

lemma with_cumulative_time_nth:
  "i < length df \<Longrightarrow> with_cumulative_time df ! i = (df ! i, cumulative_time df ! i)"
  by (simp add: with_cumulative_time_def length_cumulative_time)

lemma map_fst_with_cumulative_time: "map fst (with_cumulative_time df) = df"
  by (simp add: with_cumulative_time_def length_cumulative_time)

lemma is_leader_row_iff:
  "is_leader_row df i \<longleftrightarrow>
     (\<exists>v. snd (df ! i) = Some v \<and>
        (\<forall>j<length df. LapNumber (fst (df ! j)) = LapNumber (fst (df ! i)) \<longrightarrow>
           (\<forall>u. snd (df ! j) = Some u \<longrightarrow> v \<le> u \<and> (j < i \<longrightarrow> v < u))))"
  unfolding is_leader_row_def list_all_iff
  by (auto split: option.splits)

lemma lap_number_timed_iff:
  "lap_number_timed df n \<longleftrightarrow> (\<exists>j<length df. LapNumber (fst (df ! j)) = n \<and> snd (df ! j) \<noteq> None)"
  unfolding lap_number_timed_def list_ex_iff case_prod_unfold
  by (metis in_set_conv_nth)

lemma leader_laps_Inl:
  "leader_laps df = Inl e \<longleftrightarrow>
     e = AllNaGroup \<and> (\<exists>r\<in>set df. \<not> lap_number_timed df (LapNumber (fst r)))"
proof -
  let ?keys = "map (\<lambda>(r, c). LapNumber r) df" and ?vals = "map snd df"
  have "leader_laps df = Inl e \<longleftrightarrow> groupby_idxmin ?keys ?vals = Inl e"
    by (auto simp: leader_laps_def split: sum.splits)
  also have "\<dots> \<longleftrightarrow> e = AllNaGroup \<and>
       (\<exists>k\<in>set ?keys. \<forall>j<length ?keys. ?keys ! j = k \<longrightarrow> ?vals ! j = None)"
    by (rule groupby_idxmin_Inl)
  also have "(\<exists>k\<in>set ?keys. \<forall>j<length ?keys. ?keys ! j = k \<longrightarrow> ?vals ! j = None)
     \<longleftrightarrow> (\<exists>k\<in>set ?keys. \<not> lap_number_timed df k)"
    unfolding lap_number_timed_iff by (simp add: case_prod_unfold) blast
  also have "\<dots> \<longleftrightarrow> (\<exists>r\<in>set df. \<not> lap_number_timed df (LapNumber (fst r)))"
    by (simp add: case_prod_unfold)
  finally show ?thesis .
qed

lemma leader_laps_Inr:
  assumes "leader_laps df = Inr leaders"
  shows "map (\<lambda>(r, c). LapNumber r) leaders = group_keys (map (\<lambda>(r, c). LapNumber r) df)"
    and "p < length leaders \<Longrightarrow> \<exists>i<length df. leaders ! p = df ! i \<and> is_leader_row df i"
proof -
  let ?keys = "map (\<lambda>(r, c). LapNumber r) df" and ?vals = "map snd df"
  from assms obtain idx where idx: "groupby_idxmin ?keys ?vals = Inr idx"
    and l: "leaders = map (\<lambda>i. df ! i) idx"
    by (auto simp: leader_laps_def split: sum.splits)
  note A = groupby_idxmin_Inr[OF idx]
  have len: "length leaders = length (group_keys ?keys)" using A(1) l by simp
  show "map (\<lambda>(r, c). LapNumber r) leaders = group_keys ?keys"
  proof (rule nth_equalityI)
    show "length (map (\<lambda>(r, c). LapNumber r) leaders) = length (group_keys ?keys)" using len by simp
  next
    fix p assume "p < length (map (\<lambda>(r, c). LapNumber r) leaders)"
    then have p: "p < length idx" using l by simp
    from A(2)[OF p] have "idx ! p < length df" "?keys ! (idx ! p) = group_keys ?keys ! p" by simp_all
    then show "map (\<lambda>(r, c). LapNumber r) leaders ! p = group_keys ?keys ! p"
      using p l by simp
  qed
  assume "p < length leaders"
  then have p: "p < length idx" using l by simp
  from A(2)[OF p] obtain mv where i: "idx ! p < length df"
    and k: "?keys ! (idx ! p) = group_keys ?keys ! p"
    and v: "?vals ! (idx ! p) = Some mv"
    and m: "\<forall>j<length ?keys. ?keys ! j = group_keys ?keys ! p \<longrightarrow>
                (\<forall>u. ?vals ! j = Some u \<longrightarrow> mv \<le> u \<and> (j < idx ! p \<longrightarrow> mv < u))"
    by auto
  have "is_leader_row df (idx ! p)"
    unfolding is_leader_row_iff using i k v m by (auto simp: case_prod_unfold)
  then show "\<exists>i<length df. leaders ! p = df ! i \<and> is_leader_row df i"
    using i l p by auto
qed

lemma get_track_status_by_lap_eq:
  "get_track_status_by_lap s w =
     (case leader_laps (with_cumulative_time (session_laps s w)) of
        Inl e \<Rightarrow> Inl e
      | Inr leaders \<Rightarrow> Inr (map (\<lambda>(r, c). (LapNumber r, TrackStatus r)) leaders),
      w\<lparr>heap := heap w @ [(heap w ! laps s)\<lparr>CumulativeTime := Some (cumulative_time (session_laps s w))\<rparr>]\<rparr>)"
  unfolding get_track_status_by_lap_def copy_frame_def set_CumulativeTime_def table_of_def
    session_laps_def with_cumulative_time_def
  by (simp add: Let_def split: sum.splits)

subsection \<open>The leader-lap view\<close>

lemma set_with_cumulative_time: "fst ` set (with_cumulative_time df) = set df"
  using map_fst_with_cumulative_time[of df] by (metis set_map)

lemma track_status_Inr_iff:
  "fst (get_track_status_by_lap s w) = Inr view \<longleftrightarrow>
     (\<exists>leaders. leader_laps (with_cumulative_time (session_laps s w)) = Inr leaders
        \<and> view = map (\<lambda>(r, c). (LapNumber r, TrackStatus r)) leaders)"
  unfolding get_track_status_by_lap_eq by (auto split: sum.splits)

lemma track_status_Inl_iff:
  "fst (get_track_status_by_lap s w) = Inl e \<longleftrightarrow>
     leader_laps (with_cumulative_time (session_laps s w)) = Inl e"
  unfolding get_track_status_by_lap_eq by (auto split: sum.splits)

lemma track_status_returns_iff:
  "(\<exists>view. fst (get_track_status_by_lap s w) = Inr view) \<longleftrightarrow>
     (\<forall>r\<in>set (session_laps s w).
        lap_number_timed (with_cumulative_time (session_laps s w)) (LapNumber r))"
proof -
  let ?tbl = "with_cumulative_time (session_laps s w)"
  have "(\<exists>view. fst (get_track_status_by_lap s w) = Inr view) \<longleftrightarrow> \<not> (\<exists>e. leader_laps ?tbl = Inl e)"
    unfolding track_status_Inr_iff by (cases "leader_laps ?tbl") auto
  also have "\<dots> \<longleftrightarrow> (\<forall>r\<in>set ?tbl. lap_number_timed ?tbl (LapNumber (fst r)))"
    unfolding leader_laps_Inl by auto
  also have "\<dots> \<longleftrightarrow> (\<forall>r\<in>fst ` set ?tbl. lap_number_timed ?tbl (LapNumber r))"
    by auto
  finally show ?thesis unfolding set_with_cumulative_time .
qed

lemma leader_keys: "map (\<lambda>(r, c). LapNumber r) (with_cumulative_time df) = map LapNumber df"
proof -
  have "map (\<lambda>(r, c). LapNumber r) (with_cumulative_time df) = map LapNumber (map fst (with_cumulative_time df))"
    by (simp add: case_prod_unfold comp_def)
  then show ?thesis by (simp add: map_fst_with_cumulative_time)
qed

lemma track_status_view:
  assumes "fst (get_track_status_by_lap s w) = Inr view"
  shows "map fst view = group_keys (map LapNumber (session_laps s w))"
    and "p < length view \<Longrightarrow> \<exists>i<length (session_laps s w).
           view ! p = (LapNumber (session_laps s w ! i), TrackStatus (session_laps s w ! i))
         \<and> is_leader_row (with_cumulative_time (session_laps s w)) i"
proof -
  let ?df = "session_laps s w"
  let ?tbl = "with_cumulative_time ?df"
  from assms obtain leaders where l: "leader_laps ?tbl = Inr leaders"
    and v: "view = map (\<lambda>(r, c). (LapNumber r, TrackStatus r)) leaders"
    unfolding track_status_Inr_iff by blast
  have "map fst view = map (\<lambda>(r, c). LapNumber r) leaders"
    unfolding v by (simp add: case_prod_unfold comp_def)
  then show "map fst view = group_keys (map LapNumber ?df)"
    using leader_laps_Inr(1)[OF l] by (simp add: leader_keys)
  assume p: "p < length view"
  then have "p < length leaders" using v by simp
  from leader_laps_Inr(2)[OF l this] obtain i where i: "i < length ?tbl"
    and e: "leaders ! p = ?tbl ! i" and ld: "is_leader_row ?tbl i" by blast
  have i': "i < length ?df" using i by (simp add: length_with_cumulative_time)
  have "view ! p = (LapNumber (?df ! i), TrackStatus (?df ! i))"
    using p v e i' by (simp add: with_cumulative_time_nth)
  with i' ld show "\<exists>i<length ?df.
           view ! p = (LapNumber (?df ! i), TrackStatus (?df ! i)) \<and> is_leader_row ?tbl i"
    by blast
qed

text \<open>
  Claim C1, as the code has it. The cumulative time of a row is the running sum of the
  lap durations of its driver, and is missing where the lap duration is missing.
  \<^verbatim>\<open>get_track_status_by_lap\<close> returns a view exactly when every lap number of the
  session has a row with a cumulative time (otherwise \<^verbatim>\<open>idxmin\<close> fails and there is no
  view). A view that is returned has exactly one row per distinct lap number, in
  ascending order; that row is taken from a row of the lap table that has a cumulative
  time, no row of the same lap number has a smaller one, and every earlier row of the
  same lap number has a strictly larger one (on a tie the first row in input order is
  chosen). In the spec's example the cumulative times are 90, 181, 270 for A and 92,
  180, 270 for B, and the leaders are A on lap 1, B on lap 2 and A on lap 3.
\<close>

theorem leader_lap_view:
  "(\<forall>i<length (session_laps s w).
      snd (with_cumulative_time (session_laps s w) ! i)
        = map_option (\<lambda>_. running_sum (session_laps s w) i) (LapTime (session_laps s w ! i)))
   \<and> ((\<exists>view. fst (get_track_status_by_lap s w) = Inr view) \<longleftrightarrow>
        (\<forall>r\<in>set (session_laps s w).
           lap_number_timed (with_cumulative_time (session_laps s w)) (LapNumber r)))
   \<and> (\<forall>view. fst (get_track_status_by_lap s w) = Inr view \<longrightarrow>
         distinct (map fst view) \<and> sorted (map fst view)
       \<and> set (map fst view) = LapNumber ` set (session_laps s w)
       \<and> (\<forall>p<length view. \<exists>i<length (session_laps s w).
             view ! p = (LapNumber (session_laps s w ! i), TrackStatus (session_laps s w ! i))
           \<and> is_leader_row (with_cumulative_time (session_laps s w)) i))
   \<and> cumulative_time example_laps = [Some 90, Some 181, Some 270, Some 92, Some 180, Some 270]
   \<and> map_sum id (map (\<lambda>(r, c). (LapNumber r, Driver r, c)))
        (leader_laps (with_cumulative_time example_laps))
       = Inr [(1, ''A'', Some 90), (2, ''B'', Some 180), (3, ''A'', Some 270)]"
proof (intro conjI allI impI)
  fix i assume "i < length (session_laps s w)"
  then show "snd (with_cumulative_time (session_laps s w) ! i)
        = map_option (\<lambda>_. running_sum (session_laps s w) i) (LapTime (session_laps s w ! i))"
    by (simp add: with_cumulative_time_nth cumulative_time_nth)
next
  show "(\<exists>view. fst (get_track_status_by_lap s w) = Inr view) \<longleftrightarrow>
        (\<forall>r\<in>set (session_laps s w).
           lap_number_timed (with_cumulative_time (session_laps s w)) (LapNumber r))"
    by (rule track_status_returns_iff)
next
  fix view assume v: "fst (get_track_status_by_lap s w) = Inr view"
  note k = track_status_view(1)[OF v]
  show "distinct (map fst view)" unfolding k by (simp add: group_keys_def)
  show "sorted (map fst view)" unfolding k by (simp add: group_keys_def)
  show "set (map fst view) = LapNumber ` set (session_laps s w)"
    unfolding k by (simp add: group_keys_set)
  fix p assume "p < length view"
  from track_status_view(2)[OF v this]
  show "\<exists>i<length (session_laps s w).
             view ! p = (LapNumber (session_laps s w ! i), TrackStatus (session_laps s w ! i))
           \<and> is_leader_row (with_cumulative_time (session_laps s w)) i" .
next
  show "cumulative_time example_laps = [Some 90, Some 181, Some 270, Some 92, Some 180, Some 270]"
    by code_simp
next
  show "map_sum id (map (\<lambda>(r, c). (LapNumber r, Driver r, c)))
        (leader_laps (with_cumulative_time example_laps))
       = Inr [(1, ''A'', Some 90), (2, ''B'', Some 180), (3, ''A'', Some 270)]"
    by code_simp
qed

text \<open>The example session satisfies the hypothesis: the view is returned.\<close>

theorem leader_lap_view_witness:
  "fst (get_track_status_by_lap example_session example_world) = Inr [(1, ''1''), (2, ''6''), (3, ''4'')]
   \<and> LapNumber ` set (session_laps example_session example_world) = {1, 2, 3}
   \<and> is_leader_row (with_cumulative_time (session_laps example_session example_world)) 4
   \<and> is_leader_row (with_cumulative_time (session_laps example_session example_world)) 2
   \<and> \<not> is_leader_row (with_cumulative_time (session_laps example_session example_world)) 5"
proof -
  have v: "fst (get_track_status_by_lap example_session example_world) = Inr [(1, ''1''), (2, ''6''), (3, ''4'')]"
    by code_simp
  have "set (map fst [(1::int, ''1''), (2, ''6''), (3, ''4'')]) = LapNumber ` set (session_laps example_session example_world)"
    using leader_lap_view[of example_session example_world] v by blast
  then have "LapNumber ` set (session_laps example_session example_world) = {1, 2, 3}"
    by auto
  moreover have "is_leader_row (with_cumulative_time (session_laps example_session example_world)) 4"
    "is_leader_row (with_cumulative_time (session_laps example_session example_world)) 2"
    "\<not> is_leader_row (with_cumulative_time (session_laps example_session example_world)) 5"
    by code_simp+
  ultimately show ?thesis using v by blast
qed

text \<open>
  The claim as stated, for every lap table, fails: a session whose lap 1 has no lap
  time at all has a lap number but gets no view.
\<close>

theorem untimed_lap_no_view:
  "map LapNumber (session_laps \<lparr>laps = 0, weather_data = []\<rparr> untimed_world) = [1]
   \<and> fst (get_track_status_by_lap \<lparr>laps = 0, weather_data = []\<rparr> untimed_world) = Inl AllNaGroup"
  by code_simp

subsection \<open>The weather view\<close>

lemma get_weather_data_by_lap_snd:
  "snd (get_weather_data_by_lap s w) = snd (get_track_status_by_lap s w)"
  unfolding get_track_status_by_lap_eq
  unfolding get_weather_data_by_lap_def copy_frame_def set_CumulativeTime_def table_of_def
    session_laps_def with_cumulative_time_def
  by (simp add: Let_def split: sum.split)

lemma get_weather_data_by_lap_fst:
  "fst (get_weather_data_by_lap s w) =
     (case leader_laps (with_cumulative_time (session_laps s w)) of
        Inl e \<Rightarrow> Inl e
      | Inr leaders \<Rightarrow>
          (case weather_laps leaders (weather_data s) of
             Inl e \<Rightarrow> Inl e
           | Inr merged \<Rightarrow> Inr (map (\<lambda>(r, s). (LapNumber r, map_option readings_of s)) merged)))"
  unfolding get_weather_data_by_lap_def copy_frame_def set_CumulativeTime_def table_of_def
    session_laps_def with_cumulative_time_def
  by (simp add: Let_def split: sum.split)

lemma asof_backward_Some:
  assumes "sorted (map (\<lambda>s. the (Time s)) xs)" and "asof_backward t xs = Some b"
  shows "b \<in> set xs \<and> the (Time b) \<le> t \<and> (\<forall>s\<in>set xs. the (Time s) \<le> t \<longrightarrow> the (Time s) \<le> the (Time b))"
  using assms
proof (induction xs arbitrary: b)
  case Nil
  then show ?case by (simp add: asof_backward_def)
next
  case (Cons x xs)
  show ?case
  proof (cases "the (Time x) \<le> t")
    case False
    then show ?thesis using Cons.prems by (simp add: asof_backward_def)
  next
    case True
    show ?thesis
    proof (cases "takeWhile (\<lambda>s. the (Time s) \<le> t) xs")
      case Nil
      then have bx: "b = x" using Cons.prems True by (simp add: asof_backward_def)
      have "\<forall>s\<in>set xs. the (Time s) \<le> t \<longrightarrow> the (Time s) \<le> the (Time x)"
      proof (cases xs)
        case Nil
        then show ?thesis by simp
      next
        case (Cons y ys)
        then have "\<not> the (Time y) \<le> t" using \<open>takeWhile (\<lambda>s. the (Time s) \<le> t) xs = []\<close> by (auto split: if_splits)
        moreover have "\<forall>s\<in>set xs. the (Time y) \<le> the (Time s)"
          using Cons.prems(1) Cons by auto
        ultimately show ?thesis by force
      qed
      then show ?thesis using bx True by simp
    next
      case (Cons y ys)
      then have "asof_backward t xs = Some b"
        using Cons.prems True by (simp add: asof_backward_def)
      moreover have "sorted (map (\<lambda>s. the (Time s)) xs)" using Cons.prems(1) by simp
      ultimately have IH: "b \<in> set xs \<and> the (Time b) \<le> t \<and> (\<forall>s\<in>set xs. the (Time s) \<le> t \<longrightarrow> the (Time s) \<le> the (Time b))"
        using Cons.IH by blast
      have "the (Time x) \<le> the (Time b)" using Cons.prems(1) IH by auto
      then show ?thesis using IH by auto
    qed
  qed
qed

lemma asof_backward_None_iff:
  "asof_backward t xs = None \<longleftrightarrow> takeWhile (\<lambda>s. the (Time s) \<le> t) xs = []"
  by (cases "takeWhile (\<lambda>s. the (Time s) \<le> t) xs") (simp_all add: asof_backward_def)

lemma asof_backward_None:
  assumes "sorted (map (\<lambda>s. the (Time s)) xs)" and "asof_backward t xs = None"
  shows "\<forall>s\<in>set xs. t < the (Time s)"
proof (cases xs)
  case Nil
  then show ?thesis by simp
next
  case (Cons y ys)
  have "takeWhile (\<lambda>s. the (Time s) \<le> t) (y # ys) = []"
    using assms(2) unfolding asof_backward_None_iff Cons .
  then have y: "t < the (Time y)" by (simp split: if_splits)
  have "\<forall>s\<in>set xs. the (Time y) \<le> the (Time s)" using assms(1) unfolding Cons by auto
  with y show ?thesis by force
qed

lemma asof_forward_Some:
  assumes "sorted (map (\<lambda>s. the (Time s)) xs)" and "asof_forward t xs = Some f"
  shows "f \<in> set xs \<and> t \<le> the (Time f) \<and> (\<forall>s\<in>set xs. t \<le> the (Time s) \<longrightarrow> the (Time f) \<le> the (Time s))"
  using assms
proof (induction xs)
  case Nil
  then show ?case by (simp add: asof_forward_def)
next
  case (Cons x xs)
  show ?case
  proof (cases "the (Time x) < t")
    case True
    then have "asof_forward t xs = Some f" using Cons.prems by (simp add: asof_forward_def)
    then show ?thesis using Cons True by auto
  next
    case False
    then have "f = x" using Cons.prems by (simp add: asof_forward_def)
    then show ?thesis using False Cons.prems(1) by auto
  qed
qed

lemma asof_forward_None:
  assumes "asof_forward t xs = None"
  shows "\<forall>s\<in>set xs. the (Time s) < t"
proof (cases "dropWhile (\<lambda>s. the (Time s) < t) xs")
  case Nil
  then show ?thesis by (simp only: dropWhile_eq_Nil_conv)
next
  case (Cons y ys)
  then have "asof_forward t xs = Some y" unfolding asof_forward_def by (simp only: list.case)
  with assms show ?thesis by simp
qed

lemma asof_nearest_Some:
  assumes "sorted (map (\<lambda>s. the (Time s)) xs)" and "asof_nearest t xs = Some n"
  shows "n \<in> set xs \<and> (\<forall>s\<in>set xs. \<bar>the (Time n) - t\<bar> \<le> \<bar>the (Time s) - t\<bar>)"
proof (cases "asof_backward t xs")
  case None
  then have f: "asof_forward t xs = Some n" using assms(2) by (simp add: asof_nearest_def)
  note F = asof_forward_Some[OF assms(1) f]
  note B = asof_backward_None[OF assms(1) None]
  have "\<And>s. s \<in> set xs \<Longrightarrow> \<bar>the (Time n) - t\<bar> \<le> \<bar>the (Time s) - t\<bar>"
  proof -
    fix s assume s: "s \<in> set xs"
    then have "t < the (Time s)" using B by blast
    moreover then have "the (Time n) \<le> the (Time s)" using F s by simp
    moreover have "t \<le> the (Time n)" using F by simp
    ultimately show "\<bar>the (Time n) - t\<bar> \<le> \<bar>the (Time s) - t\<bar>" by linarith
  qed
  with F show ?thesis by blast
next
  case (Some b)
  note B = asof_backward_Some[OF assms(1) Some]
  show ?thesis
  proof (cases "asof_forward t xs")
    case None
    then have nb: "n = b" using assms(2) Some by (simp add: asof_nearest_def)
    note F = asof_forward_None[OF None]
    have "\<And>s. s \<in> set xs \<Longrightarrow> \<bar>the (Time n) - t\<bar> \<le> \<bar>the (Time s) - t\<bar>"
    proof -
      fix s assume s: "s \<in> set xs"
      then have "the (Time s) < t" using F by blast
      moreover then have "the (Time s) \<le> the (Time b)" using B s by simp
      moreover have "the (Time b) \<le> t" using B by simp
      ultimately show "\<bar>the (Time n) - t\<bar> \<le> \<bar>the (Time s) - t\<bar>" unfolding nb by linarith
    qed
    with B nb show ?thesis by blast
  next
    case (Some f)
    note F = asof_forward_Some[OF assms(1) Some]
    have n: "n = (if t - the (Time b) \<le> the (Time f) - t then b else f)"
      using assms(2) Some \<open>asof_backward t xs = Some b\<close> by (simp add: asof_nearest_def)
    have bt: "the (Time b) \<le> t" and tf: "t \<le> the (Time f)" using B F by simp_all
    have "\<And>s. s \<in> set xs \<Longrightarrow> \<bar>the (Time n) - t\<bar> \<le> \<bar>the (Time s) - t\<bar>"
    proof -
      fix s assume s: "s \<in> set xs"
      show "\<bar>the (Time n) - t\<bar> \<le> \<bar>the (Time s) - t\<bar>"
      proof (cases "the (Time s) \<le> t")
        case True
        then have "the (Time s) \<le> the (Time b)" using B s by blast
        then show ?thesis
          using True bt tf by (cases "t - the (Time b) \<le> the (Time f) - t") (simp_all add: n)
      next
        case False
        then have "the (Time f) \<le> the (Time s)" using F s by simp
        then show ?thesis
          using False bt tf by (cases "t - the (Time b) \<le> the (Time f) - t") (simp_all add: n)
      qed
    qed
    moreover have "n \<in> set xs" using n B F by simp
    ultimately show ?thesis by blast
  qed
qed

lemma asof_nearest_None:
  assumes "asof_nearest t xs = None"
  shows "xs = []"
proof (rule ccontr)
  assume "xs \<noteq> []"
  then obtain y ys where xs: "xs = y # ys" by (cases xs) auto
  from assms have b: "asof_backward t xs = None" and f: "asof_forward t xs = None"
    by (auto simp: asof_nearest_def split: option.splits)
  from b have "t < the (Time y)"
    unfolding asof_backward_None_iff xs by (simp split: if_splits)
  moreover from asof_forward_None[OF f] have "the (Time y) < t" unfolding xs by simp
  ultimately show False by simp
qed

lemma set_sort_values_Time: "set (sort_values_Time xs) = set xs"
  by (auto simp: sort_values_Time_def)

lemma sort_values_Time_all_timed:
  assumes "\<not> list_ex (\<lambda>r. Time r = None) (sort_values_Time xs)"
  shows "sort_values_Time xs = sort_key (\<lambda>r. the (Time r)) xs"
    and "\<forall>r\<in>set xs. Time r \<noteq> None"
proof -
  show all: "\<forall>r\<in>set xs. Time r \<noteq> None"
    using assms unfolding list_ex_iff set_sort_values_Time by simp
  then have "filter (\<lambda>r. Time r \<noteq> None) xs = xs" and "filter (\<lambda>r. Time r = None) xs = []"
    by (simp_all add: filter_empty_conv)
  then show "sort_values_Time xs = sort_key (\<lambda>r. the (Time r)) xs"
    by (simp add: sort_values_Time_def)
qed

lemma merge_asof_nearest_Inr:
  assumes "merge_asof_nearest left right = Inr merged"
  shows "\<not> list_ex (\<lambda>r. Time r = None) left" and "\<not> list_ex (\<lambda>s. Time s = None) right"
    and "merged = map (\<lambda>r. (r, asof_nearest (the (Time r)) right)) left"
  using assms by (auto simp: merge_asof_nearest_def split: if_splits)

lemma weather_laps_Inr:
  assumes "weather_laps leaders weather = Inr merged"
  shows "map fst merged = sort_key (\<lambda>r. the (Time r)) (map fst leaders)"
    and "\<forall>r\<in>set (map fst leaders). Time r \<noteq> None"
    and "\<forall>s\<in>set weather. Time s \<noteq> None"
    and "p < length merged \<Longrightarrow> weather \<noteq> [] \<Longrightarrow>
           \<exists>smp. snd (merged ! p) = Some smp \<and> smp \<in> set weather
             \<and> (\<forall>s\<in>set weather. \<bar>the (Time smp) - the (Time (fst (merged ! p)))\<bar>
                                     \<le> \<bar>the (Time s) - the (Time (fst (merged ! p)))\<bar>)"
proof -
  let ?L = "sort_values_Time (map fst leaders)" and ?R = "sort_values_Time weather"
  from assms have m: "merge_asof_nearest ?L ?R = Inr merged" by (simp add: weather_laps_def)
  note M = merge_asof_nearest_Inr[OF m]
  note L = sort_values_Time_all_timed[OF M(1)]
  note R = sort_values_Time_all_timed[OF M(2)]
  show "map fst merged = sort_key (\<lambda>r. the (Time r)) (map fst leaders)"
    using M(3) L(1) by (simp add: comp_def)
  show "\<forall>r\<in>set (map fst leaders). Time r \<noteq> None" by (rule L(2))
  show "\<forall>s\<in>set weather. Time s \<noteq> None" by (rule R(2))
  assume p: "p < length merged" and ne: "weather \<noteq> []"
  let ?t = "the (Time (fst (merged ! p)))"
  have mp: "merged ! p = (?L ! p, asof_nearest (the (Time (?L ! p))) ?R)"
    using M(3) p by simp
  then have sn: "snd (merged ! p) = asof_nearest ?t ?R" by simp
  have "?R \<noteq> []" using ne set_sort_values_Time[of weather] by (metis set_empty)
  then obtain smp where smp: "asof_nearest ?t ?R = Some smp"
    using asof_nearest_None[of ?t ?R] by (cases "asof_nearest ?t ?R") auto
  have srt: "sorted (map (\<lambda>s. the (Time s)) ?R)" unfolding R(1) by simp
  from asof_nearest_Some[OF srt smp]
  have "smp \<in> set weather \<and> (\<forall>s\<in>set weather. \<bar>the (Time smp) - ?t\<bar> \<le> \<bar>the (Time s) - ?t\<bar>)"
    unfolding set_sort_values_Time .
  with sn smp show "\<exists>smp. snd (merged ! p) = Some smp \<and> smp \<in> set weather
             \<and> (\<forall>s\<in>set weather. \<bar>the (Time smp) - ?t\<bar> \<le> \<bar>the (Time s) - ?t\<bar>)"
    by simp
qed

lemma nearest_sample_iff:
  "nearest_sample weather t smp \<longleftrightarrow>
     smp \<in> set weather \<and> (\<exists>ts. Time smp = Some ts \<and>
        (\<forall>s\<in>set weather. \<forall>ts'. Time s = Some ts' \<longrightarrow> \<bar>ts - t\<bar> \<le> \<bar>ts' - t\<bar>))"
  unfolding nearest_sample_def list_ex_iff list_all_iff
  by (auto split: option.splits)

lemma weather_Inr_iff:
  "fst (get_weather_data_by_lap s w) = Inr out \<longleftrightarrow>
     (\<exists>leaders merged. leader_laps (with_cumulative_time (session_laps s w)) = Inr leaders
        \<and> weather_laps leaders (weather_data s) = Inr merged
        \<and> out = map (\<lambda>(r, s). (LapNumber r, map_option readings_of s)) merged)"
  unfolding get_weather_data_by_lap_fst by (auto split: sum.splits)

lemma distinct_map_sort_key: "distinct (map f (sort_key k xs)) \<longleftrightarrow> distinct (map f xs)"
  by (simp add: distinct_map)

lemma leads_lap_iff:
  "leads_lap df i \<longleftrightarrow>
     LapTime (df ! i) \<noteq> None \<and>
     (\<forall>j<length df. LapNumber (df ! j) = LapNumber (df ! i) \<and> LapTime (df ! j) \<noteq> None \<longrightarrow>
        running_sum df i \<le> running_sum df j \<and> (j < i \<longrightarrow> running_sum df i < running_sum df j))"
  unfolding leads_lap_def list_all_iff by auto

lemma is_leader_row_leads_lap:
  assumes "is_leader_row (with_cumulative_time df) i" and "i < length df"
  shows "leads_lap df i"
proof -
  let ?tbl = "with_cumulative_time df"
  have row: "?tbl ! j = (df ! j, map_option (\<lambda>_. running_sum df j) (LapTime (df ! j)))"
    if "j < length df" for j
    using that by (simp add: with_cumulative_time_nth cumulative_time_nth)
  from assms(1) obtain v where v: "snd (?tbl ! i) = Some v"
    and mn: "\<forall>j<length ?tbl. LapNumber (fst (?tbl ! j)) = LapNumber (fst (?tbl ! i)) \<longrightarrow>
           (\<forall>u. snd (?tbl ! j) = Some u \<longrightarrow> v \<le> u \<and> (j < i \<longrightarrow> v < u))"
    unfolding is_leader_row_iff by blast
  from v row[OF assms(2)] have ti: "LapTime (df ! i) \<noteq> None" and vi: "v = running_sum df i"
    by auto
  have "running_sum df i \<le> running_sum df j \<and> (j < i \<longrightarrow> running_sum df i < running_sum df j)"
    if j: "j < length df" and n: "LapNumber (df ! j) = LapNumber (df ! i)"
      and tj: "LapTime (df ! j) \<noteq> None" for j
  proof -
    have "j < length ?tbl" using j by (simp add: length_with_cumulative_time)
    moreover have "LapNumber (fst (?tbl ! j)) = LapNumber (fst (?tbl ! i))"
      using n row[OF j] row[OF assms(2)] by simp
    moreover have "snd (?tbl ! j) = Some (running_sum df j)"
      using tj row[OF j] by auto
    ultimately show ?thesis using mn vi by blast
  qed
  then show ?thesis unfolding leads_lap_iff using ti by blast
qed

text \<open>
  Claim C2. When \<^verbatim>\<open>get_weather_data_by_lap\<close> returns for a session with a non-empty
  weather table, its output has exactly one row per distinct lap number of the session,
  and every row carries the lap number of a leader's row of the lap table together
  with the readings of a weather sample whose timestamp has the least absolute
  difference to the timestamp of that leader's row, among all weather samples. The
  leader's row is the one that leads its lap number by the per-driver running sum of
  lap durations (the first such row on a tie).
\<close>

theorem weather_nearest_in_time:
  assumes "fst (get_weather_data_by_lap s w) = Inr out" and "weather_data s \<noteq> []"
  shows "distinct (map fst out)
       \<and> set (map fst out) = LapNumber ` set (session_laps s w)
       \<and> (\<forall>p<length out. \<exists>i<length (session_laps s w). \<exists>t smp.
             leads_lap (session_laps s w) i
           \<and> is_leader_row (with_cumulative_time (session_laps s w)) i
           \<and> Time (session_laps s w ! i) = Some t
           \<and> nearest_sample (weather_data s) t smp
           \<and> out ! p = (LapNumber (session_laps s w ! i), Some (readings_of smp)))"
proof -
  let ?df = "session_laps s w"
  let ?tbl = "with_cumulative_time ?df"
  from assms(1) obtain leaders merged where l: "leader_laps ?tbl = Inr leaders"
    and m: "weather_laps leaders (weather_data s) = Inr merged"
    and out: "out = map (\<lambda>(r, s). (LapNumber r, map_option readings_of s)) merged"
    unfolding weather_Inr_iff by blast
  note W = weather_laps_Inr[OF m]
  have "map (\<lambda>(r, c). LapNumber r) leaders = group_keys (map LapNumber ?df)"
    using leader_laps_Inr(1)[OF l] unfolding leader_keys .
  then have keys: "map LapNumber (map fst leaders) = group_keys (map LapNumber ?df)"
    by (simp add: case_prod_unfold comp_def)
  have fo: "map fst out = map LapNumber (map fst merged)"
    unfolding out by (simp add: case_prod_unfold comp_def)
  have d0: "distinct (map LapNumber (map fst leaders))"
    unfolding keys by (simp add: group_keys_def)
  have "distinct (map LapNumber (map fst merged))"
    using d0 unfolding W(1) by (simp only: distinct_map_sort_key)
  then have A: "distinct (map fst out)" unfolding fo .
  have "set (map fst out) = set (map LapNumber (map fst leaders))"
    unfolding fo W(1) by (simp add: image_image)
  then have B: "set (map fst out) = LapNumber ` set ?df"
    unfolding keys by (simp add: group_keys_set)
  have C: "\<exists>i<length ?df. \<exists>t smp. leads_lap ?df i \<and> is_leader_row ?tbl i \<and> Time (?df ! i) = Some t
           \<and> nearest_sample (weather_data s) t smp
           \<and> out ! p = (LapNumber (?df ! i), Some (readings_of smp))" if p: "p < length out" for p
  proof -
    have pm: "p < length merged" using p out by simp
    have "fst (merged ! p) \<in> set (map fst merged)" using pm by simp
    then have mem: "fst (merged ! p) \<in> set (map fst leaders)" unfolding W(1) by simp
    then obtain q where q: "q < length leaders" and fq: "fst (merged ! p) = fst (leaders ! q)"
      by (auto simp: in_set_conv_nth)
    from leader_laps_Inr(2)[OF l q] obtain i where i: "i < length ?tbl"
      and e: "leaders ! q = ?tbl ! i" and ld: "is_leader_row ?tbl i" by blast
    have i': "i < length ?df" using i by (simp add: length_with_cumulative_time)
    have row: "fst (merged ! p) = ?df ! i" using fq e i' by (simp add: with_cumulative_time_nth)
    obtain t where t: "Time (?df ! i) = Some t" using W(2) mem row by auto
    from W(4)[OF pm assms(2)] obtain smp where sm: "snd (merged ! p) = Some smp"
      and sw: "smp \<in> set (weather_data s)"
      and near: "\<forall>x\<in>set (weather_data s). \<bar>the (Time smp) - the (Time (fst (merged ! p)))\<bar>
                                     \<le> \<bar>the (Time x) - the (Time (fst (merged ! p)))\<bar>"
      by blast
    obtain ts where ts: "Time smp = Some ts" using W(3) sw by auto
    have "nearest_sample (weather_data s) t smp"
      unfolding nearest_sample_iff using sw ts near t row by force
    moreover have "out ! p = (LapNumber (?df ! i), Some (readings_of smp))"
      using pm out sm row by (simp add: case_prod_unfold)
    moreover note is_leader_row_leads_lap[OF ld i']
    ultimately show ?thesis using i' ld t by blast
  qed
  from A B C show ?thesis by blast
qed

text \<open>
  In the example session the leader's rows have the timestamps 90, 180 and 270, and the
  samples at 60, 120 and 240 are the nearest ones; the sample at 120 is as far from 90
  as the one at 60, and the earlier one is attached. Lap 2 is led by B (row 4), not by
  A (row 1). In the session where A leads lap 2 with the longer second lap, lap 2 gets
  the sample at 130, A's timestamp, and not the one at 160, B's.
\<close>

theorem weather_nearest_in_time_witness:
  "fst (get_weather_data_by_lap example_session example_world)
     = Inr [(1, Some (21, 40, 1013, False, 35, 180, 2)),
            (2, Some (22, 40, 1013, False, 35, 180, 2)),
            (3, Some (23, 40, 1013, False, 35, 180, 2))]
   \<and> weather_data example_session \<noteq> []
   \<and> LapNumber ` set (session_laps example_session example_world) = {1, 2, 3}
   \<and> nearest_sample (weather_data example_session) 90 (weather_row 60 21)
   \<and> nearest_sample (weather_data example_session) 90 (weather_row 120 22)
   \<and> \<not> nearest_sample (weather_data example_session) 90 (weather_row 240 23)
   \<and> leads_lap (session_laps example_session example_world) 4
   \<and> \<not> leads_lap (session_laps example_session example_world) 1
   \<and> fst (get_weather_data_by_lap slow_leader_session slow_leader_world)
       = Inr [(1, Some (20, 40, 1013, False, 35, 180, 2)),
              (2, Some (22, 40, 1013, False, 35, 180, 2))]
   \<and> leads_lap (session_laps slow_leader_session slow_leader_world) 1
   \<and> \<not> leads_lap (session_laps slow_leader_session slow_leader_world) 3"
proof -
  have v: "fst (get_weather_data_by_lap example_session example_world)
     = Inr [(1, Some (21, 40, 1013, False, 35, 180, 2)),
            (2, Some (22, 40, 1013, False, 35, 180, 2)),
            (3, Some (23, 40, 1013, False, 35, 180, 2))]"
    by code_simp
  have ne: "weather_data example_session \<noteq> []" by code_simp
  have "set (map fst [(1::int, Some (21::rat, 40::rat, 1013::rat, False, 35::rat, 180::int, 2::rat)),
            (2, Some (22, 40, 1013, False, 35, 180, 2)),
            (3, Some (23, 40, 1013, False, 35, 180, 2))])
        = LapNumber ` set (session_laps example_session example_world)"
    using weather_nearest_in_time[OF v ne] by blast
  then have "LapNumber ` set (session_laps example_session example_world) = {1, 2, 3}"
    by auto
  moreover have "nearest_sample (weather_data example_session) 90 (weather_row 60 21)"
    "nearest_sample (weather_data example_session) 90 (weather_row 120 22)"
    "\<not> nearest_sample (weather_data example_session) 90 (weather_row 240 23)"
    by code_simp+
  moreover have "leads_lap (session_laps example_session example_world) 4"
    "\<not> leads_lap (session_laps example_session example_world) 1"
    by code_simp+
  moreover have "fst (get_weather_data_by_lap slow_leader_session slow_leader_world)
       = Inr [(1, Some (20, 40, 1013, False, 35, 180, 2)),
              (2, Some (22, 40, 1013, False, 35, 180, 2))]"
    by code_simp
  moreover have "leads_lap (session_laps slow_leader_session slow_leader_world) 1"
    "\<not> leads_lap (session_laps slow_leader_session slow_leader_world) 3"
    by code_simp+
  ultimately show ?thesis using v ne by blast
qed

subsection \<open>The session's lap table is left alone\<close>

lemma track_status_world:
  "snd (get_track_status_by_lap s w) =
     w\<lparr>heap := heap w @ [(heap w ! laps s)\<lparr>CumulativeTime := Some (cumulative_time (session_laps s w))\<rparr>]\<rparr>"
  by (simp add: get_track_status_by_lap_eq)

text \<open>
  Claim C8. \<^verbatim>\<open>get_track_status_by_lap\<close> and \<^verbatim>\<open>get_weather_data_by_lap\<close> work on a copy
  of the session's lap table: after either call, whether it returns or raises, the
  session's own lap table, and every other table that existed before the call, is
  what it was; the column \<^verbatim>\<open>CumulativeTime\<close> is assigned to the one new table, the copy.
\<close>

theorem session_laps_not_modified:
  assumes "valid_session s w"
  shows "heap (snd (get_track_status_by_lap s w)) ! laps s = heap w ! laps s
       \<and> heap (snd (get_weather_data_by_lap s w)) ! laps s = heap w ! laps s
       \<and> take (length (heap w)) (heap (snd (get_track_status_by_lap s w))) = heap w
       \<and> take (length (heap w)) (heap (snd (get_weather_data_by_lap s w))) = heap w
       \<and> drop (length (heap w)) (heap (snd (get_track_status_by_lap s w)))
           = [\<lparr>rows = session_laps s w, CumulativeTime = Some (cumulative_time (session_laps s w))\<rparr>]
       \<and> drop (length (heap w)) (heap (snd (get_weather_data_by_lap s w)))
           = [\<lparr>rows = session_laps s w, CumulativeTime = Some (cumulative_time (session_laps s w))\<rparr>]"
  using assms
  unfolding get_weather_data_by_lap_snd track_status_world
  by (simp add: valid_session_def nth_append session_laps_def)

text \<open>
  In the example the session's table still has no column \<^verbatim>\<open>CumulativeTime\<close> after the
  call; the same assignment made to the session's table itself would have added it.
\<close>

theorem session_laps_not_modified_witness:
  "valid_session example_session example_world
   \<and> heap (snd (get_track_status_by_lap example_session example_world)) ! laps example_session
       = \<lparr>rows = example_laps, CumulativeTime = None\<rparr>
   \<and> heap (snd (get_weather_data_by_lap example_session example_world)) ! laps example_session
       = \<lparr>rows = example_laps, CumulativeTime = None\<rparr>
   \<and> CumulativeTime (heap (set_CumulativeTime (laps example_session) (cumulative_time example_laps)
                              example_world) ! laps example_session)
       = Some [Some 90, Some 181, Some 270, Some 92, Some 180, Some 270]"
proof -
  have v: "valid_session example_session example_world" by code_simp
  have h: "heap example_world ! laps example_session = \<lparr>rows = example_laps, CumulativeTime = None\<rparr>"
    by code_simp
  have c: "CumulativeTime (heap (set_CumulativeTime (laps example_session) (cumulative_time example_laps)
                              example_world) ! laps example_session)
       = Some [Some 90, Some 181, Some 270, Some 92, Some 180, Some 270]"
    by code_simp
  from session_laps_not_modified[OF v] h c v show ?thesis by simp
qed

subsection \<open>Incident bands and incident laps\<close>

lemma fold_axvspan:
  "fold (\<lambda>lap. axvspan (f lap) (g lap) c a) ls ax
     = ax\<lparr>spans := spans ax @ map (\<lambda>lap. \<lparr>xmin = f lap, xmax = g lap, color = c, alpha = a\<rparr>) ls\<rparr>"
  by (induction ls arbitrary: ax) (simp_all add: axvspan_def)

lemma plot_track_status_highlights_eq:
  "plot_track_status_highlights ax s w =
     (case fst (get_track_status_by_lap s w) of
        Inl e \<Rightarrow> Inl e
      | Inr view \<Rightarrow>
          Inr (ax\<lparr>spans := spans ax
                 @ map (\<lambda>lap. \<lparr>xmin = of_int lap - 1 / 2, xmax = of_int lap + 1 / 2,
                                color = ''yellow'', alpha = 3 / 10\<rparr>)
                       (map fst (filter (\<lambda>(n, st). st = ''4'') view))
                 @ map (\<lambda>lap. \<lparr>xmin = of_int lap - 1 / 2, xmax = of_int lap + 1 / 2,
                                color = ''orange'', alpha = 3 / 10\<rparr>)
                       (map fst (filter (\<lambda>(n, st). st = ''6'' \<or> st = ''7'') view))\<rparr>),
      snd (get_track_status_by_lap s w))"
  unfolding plot_track_status_highlights_def fold_axvspan isin_def
  by (cases "get_track_status_by_lap s w") (simp add: Let_def split: sum.split)

lemma length_filter_disjoint:
  "(\<And>x. \<not> (P x \<and> Q x)) \<Longrightarrow>
     length (filter P xs) + length (filter Q xs) = length (filter (\<lambda>x. P x \<or> Q x) xs)"
  by (induction xs) auto

text \<open>
  C4 (as amended). Whenever the track-status view is returned,
  \<^verbatim>\<open>plot_track_status_highlights\<close> adds to the drawing surface exactly one band for
  each lap number of the view whose code is \<open>4\<close> (Safety Car), in yellow, followed by one
  band for each lap number whose code is \<open>6\<close> or \<open>7\<close> (Virtual Safety Car), in orange, and
  changes nothing else. Every band is centred on its lap number and reaches half a lap to
  either side, so it is one lap wide. When the view fails, so does the call.
\<close>

theorem track_status_bands:
  "(fst (get_track_status_by_lap s w) = Inr view \<longrightarrow>
      (\<exists>ax'. fst (plot_track_status_highlights ax s w) = Inr ax'
         \<and> spans ax' = spans ax
               @ map (\<lambda>lap. \<lparr>xmin = of_int lap - 1 / 2, xmax = of_int lap + 1 / 2,
                              color = ''yellow'', alpha = 3 / 10\<rparr>)
                     (map fst (filter (\<lambda>(n, st). st = ''4'') view))
               @ map (\<lambda>lap. \<lparr>xmin = of_int lap - 1 / 2, xmax = of_int lap + 1 / 2,
                              color = ''orange'', alpha = 3 / 10\<rparr>)
                     (map fst (filter (\<lambda>(n, st). st = ''6'' \<or> st = ''7'') view))
         \<and> ax'\<lparr>spans := spans ax\<rparr> = ax
         \<and> (\<forall>b\<in>set (drop (length (spans ax)) (spans ax')).
               xmax b - xmin b = 1
             \<and> (\<exists>(n, st)\<in>set view. (xmin b + xmax b) / 2 = of_int n
                   \<and> (color b = ''yellow'' \<and> st = ''4''
                      \<or> color b = ''orange'' \<and> (st = ''6'' \<or> st = ''7''))))))
   \<and> (fst (get_track_status_by_lap s w) = Inl e \<longrightarrow>
        fst (plot_track_status_highlights ax s w) = Inl e)"
proof (intro conjI impI)
  assume v: "fst (get_track_status_by_lap s w) = Inr view"
  let ?sc = "map fst (filter (\<lambda>(n, st). st = ''4'') view)"
  let ?vsc = "map fst (filter (\<lambda>(n, st). st = ''6'' \<or> st = ''7'') view)"
  let ?y = "\<lambda>lap::int. \<lparr>xmin = of_int lap - 1 / 2, xmax = of_int lap + 1 / 2,
                              color = ''yellow'', alpha = 3 / 10\<rparr>"
  let ?o = "\<lambda>lap::int. \<lparr>xmin = of_int lap - 1 / 2, xmax = of_int lap + 1 / 2,
                              color = ''orange'', alpha = 3 / 10\<rparr>"
  let ?ax = "ax\<lparr>spans := spans ax @ map ?y ?sc @ map ?o ?vsc\<rparr>"
  have r: "fst (plot_track_status_highlights ax s w) = Inr ?ax"
    unfolding plot_track_status_highlights_eq using v by simp
  have bands: "xmax b - xmin b = 1
             \<and> (\<exists>(n, st)\<in>set view. (xmin b + xmax b) / 2 = of_int n
                   \<and> (color b = ''yellow'' \<and> st = ''4''
                      \<or> color b = ''orange'' \<and> (st = ''6'' \<or> st = ''7'')))"
    if "b \<in> set (map ?y ?sc @ map ?o ?vsc)" for b
  proof -
    from that consider
        (sc) n where "(n, ''4'') \<in> set view" "b = ?y n"
      | (vsc) n st where "(n, st) \<in> set view" "st = ''6'' \<or> st = ''7''" "b = ?o n"
      by auto
    then show ?thesis
    proof cases
      case sc
      then show ?thesis by (intro conjI bexI[of _ "(n, ''4'')"]) simp_all
    next
      case vsc
      then show ?thesis by (intro conjI bexI[of _ "(n, st)"]) auto
    qed
  qed
  show "\<exists>ax'. fst (plot_track_status_highlights ax s w) = Inr ax'
         \<and> spans ax' = spans ax @ map ?y ?sc @ map ?o ?vsc
         \<and> ax'\<lparr>spans := spans ax\<rparr> = ax
         \<and> (\<forall>b\<in>set (drop (length (spans ax)) (spans ax')).
               xmax b - xmin b = 1
             \<and> (\<exists>(n, st)\<in>set view. (xmin b + xmax b) / 2 = of_int n
                   \<and> (color b = ''yellow'' \<and> st = ''4''
                      \<or> color b = ''orange'' \<and> (st = ''6'' \<or> st = ''7''))))"
  proof (intro exI[of _ ?ax] conjI ballI)
    show "fst (plot_track_status_highlights ax s w) = Inr ?ax" by (rule r)
    show "spans ?ax = spans ax @ map ?y ?sc @ map ?o ?vsc" by simp
    show "?ax\<lparr>spans := spans ax\<rparr> = ax" by simp
  next
    fix b assume "b \<in> set (drop (length (spans ax)) (spans ?ax))"
    then have m: "b \<in> set (map ?y ?sc @ map ?o ?vsc)" by simp
    from bands[OF m] show "xmax b - xmin b = 1" by blast
    from bands[OF m] show "\<exists>(n, st)\<in>set view. (xmin b + xmax b) / 2 = of_int n
                   \<and> (color b = ''yellow'' \<and> st = ''4''
                      \<or> color b = ''orange'' \<and> (st = ''6'' \<or> st = ''7''))" by blast
  qed
next
  assume "fst (get_track_status_by_lap s w) = Inl e"
  then show "fst (plot_track_status_highlights ax s w) = Inl e"
    unfolding plot_track_status_highlights_eq by simp
qed

text \<open>
  In the example session the leader is under Virtual Safety Car on lap 2 and under Safety
  Car on lap 3: two bands.
\<close>

theorem track_status_bands_witness:
  "fst (get_track_status_by_lap example_session example_world) = Inr [(1, ''1''), (2, ''6''), (3, ''4'')]
   \<and> (\<exists>ax'. fst (plot_track_status_highlights (subplots :: unit axes) example_session example_world) = Inr ax'
         \<and> spans ax' = [\<lparr>xmin = 5 / 2, xmax = 7 / 2, color = ''yellow'', alpha = 3 / 10\<rparr>,
                        \<lparr>xmin = 3 / 2, xmax = 5 / 2, color = ''orange'', alpha = 3 / 10\<rparr>])"
proof -
  have v: "fst (get_track_status_by_lap example_session example_world) = Inr [(1, ''1''), (2, ''6''), (3, ''4'')]"
    by code_simp
  from track_status_bands[of example_session example_world "[(1, ''1''), (2, ''6''), (3, ''4'')]"
      "subplots :: unit axes"] v
  obtain ax' where "fst (plot_track_status_highlights (subplots :: unit axes) example_session example_world) = Inr ax'"
    and "spans ax' = spans (subplots :: unit axes)
               @ map (\<lambda>lap. \<lparr>xmin = of_int lap - 1 / 2, xmax = of_int lap + 1 / 2,
                              color = ''yellow'', alpha = 3 / 10\<rparr>)
                     (map fst (filter (\<lambda>(n, st). st = ''4'') [(1::int, ''1''), (2, ''6''), (3, ''4'')]))
               @ map (\<lambda>lap. \<lparr>xmin = of_int lap - 1 / 2, xmax = of_int lap + 1 / 2,
                              color = ''orange'', alpha = 3 / 10\<rparr>)
                     (map fst (filter (\<lambda>(n, st). st = ''6'' \<or> st = ''7'') [(1::int, ''1''), (2, ''6''), (3, ''4'')]))"
    by blast
  moreover from this(2) have "spans ax' = [\<lparr>xmin = 5 / 2, xmax = 7 / 2, color = ''yellow'', alpha = 3 / 10\<rparr>,
                        \<lparr>xmin = 3 / 2, xmax = 5 / 2, color = ''orange'', alpha = 3 / 10\<rparr>]"
    by (simp add: subplots_def)
  ultimately show ?thesis using v by blast
qed

text \<open>
  The claim as stated asks for a band half a lap wide. The band drawn for lap 3 of the
  example session reaches from 2.5 to 3.5: it is one lap wide.
\<close>

theorem band_is_one_lap_wide:
  "fst (plot_track_status_highlights (subplots :: unit axes) example_session example_world)
     = Inr (subplots\<lparr>spans := [\<lparr>xmin = 5 / 2, xmax = 7 / 2, color = ''yellow'', alpha = 3 / 10\<rparr>,
                               \<lparr>xmin = 3 / 2, xmax = 5 / 2, color = ''orange'', alpha = 3 / 10\<rparr>]\<rparr>)
   \<and> xmax \<lparr>xmin = 5 / 2, xmax = 7 / 2, color = ''yellow'', alpha = 3 / 10\<rparr>
       - xmin \<lparr>xmin = 5 / 2, xmax = 7 / 2, color = ''yellow'', alpha = 3 / 10\<rparr> = 1
   \<and> xmax \<lparr>xmin = 5 / 2, xmax = 7 / 2, color = ''yellow'', alpha = 3 / 10\<rparr>
       - xmin \<lparr>xmin = 5 / 2, xmax = 7 / 2, color = ''yellow'', alpha = 3 / 10\<rparr> \<noteq> 1 / 2"
  by code_simp

text \<open>
  C9. Both classifications compare the whole track-status string with \<open>4\<close>, \<open>6\<close> and \<open>7\<close>.
  The safety-car filter of \<^verbatim>\<open>plot_lap_times\<close> drops exactly the rows whose status is one of
  these three strings, and \<^verbatim>\<open>plot_track_status_highlights\<close> draws exactly as many bands
  as the view has rows with one of them. A status that only contains one of the codes
  (\<open>45\<close>, \<open>67\<close>, \<open>124\<close>) is kept by the filter and gets no band.
\<close>

theorem status_codes_exact:
  "exclude_safety_car_laps df
     = filter (\<lambda>r. TrackStatus r \<noteq> ''4'' \<and> TrackStatus r \<noteq> ''6'' \<and> TrackStatus r \<noteq> ''7'') df
   \<and> lap_times_driver_laps False True False df d
     = filter (\<lambda>r. Driver r = d \<and> TrackStatus r \<noteq> ''4'' \<and> TrackStatus r \<noteq> ''6'' \<and> TrackStatus r \<noteq> ''7'') df
   \<and> (fst (get_track_status_by_lap s w) = Inr view \<longrightarrow>
        (\<exists>ax'. fst (plot_track_status_highlights ax s w) = Inr ax'
           \<and> length (spans ax') = length (spans ax)
               + length (filter (\<lambda>(n, st). st = ''4'' \<or> st = ''6'' \<or> st = ''7'') view)))
   \<and> map TrackStatus composite_laps = [''45'', ''67'', ''124'']
   \<and> exclude_safety_car_laps composite_laps = composite_laps
   \<and> fst (plot_track_status_highlights (subplots :: unit axes) \<lparr>laps = 0, weather_data = []\<rparr> composite_world)
       = Inr subplots"
proof (intro conjI impI)
  show e: "exclude_safety_car_laps df
     = filter (\<lambda>r. TrackStatus r \<noteq> ''4'' \<and> TrackStatus r \<noteq> ''6'' \<and> TrackStatus r \<noteq> ''7'') df"
    unfolding exclude_safety_car_laps_def isin_def by simp
  show "lap_times_driver_laps False True False df d
     = filter (\<lambda>r. Driver r = d \<and> TrackStatus r \<noteq> ''4'' \<and> TrackStatus r \<noteq> ''6'' \<and> TrackStatus r \<noteq> ''7'') df"
    unfolding lap_times_driver_laps_def pick_drivers_def exclude_safety_car_laps_def isin_def
    by (simp add: conj_commute conj_left_commute cong: conj_cong)
next
  assume v: "fst (get_track_status_by_lap s w) = Inr view"
  have "length (filter (\<lambda>(n, st). st = ''4'') view)
          + length (filter (\<lambda>(n, st). st = ''6'' \<or> st = ''7'') view)
        = length (filter (\<lambda>x. (case x of (n, st) \<Rightarrow> st = ''4'') \<or> (case x of (n, st) \<Rightarrow> st = ''6'' \<or> st = ''7'')) view)"
    by (rule length_filter_disjoint) auto
  also have "\<dots> = length (filter (\<lambda>(n, st). st = ''4'' \<or> st = ''6'' \<or> st = ''7'') view)"
    by (simp add: case_prod_unfold)
  finally have l: "length (filter (\<lambda>(n, st). st = ''4'') view)
          + length (filter (\<lambda>(n, st). st = ''6'' \<or> st = ''7'') view)
        = length (filter (\<lambda>(n, st). st = ''4'' \<or> st = ''6'' \<or> st = ''7'') view)" .
  show "\<exists>ax'. fst (plot_track_status_highlights ax s w) = Inr ax'
           \<and> length (spans ax') = length (spans ax)
               + length (filter (\<lambda>(n, st). st = ''4'' \<or> st = ''6'' \<or> st = ''7'') view)"
    unfolding plot_track_status_highlights_eq using v l by simp
next
  show "map TrackStatus composite_laps = [''45'', ''67'', ''124'']" by code_simp
  show "exclude_safety_car_laps composite_laps = composite_laps" by code_simp
  show "fst (plot_track_status_highlights (subplots :: unit axes) \<lparr>laps = 0, weather_data = []\<rparr> composite_world)
       = Inr subplots" by code_simp
qed

text \<open>The session with composite codes has a view, and no band is drawn for it.\<close>

theorem status_codes_exact_witness:
  "fst (get_track_status_by_lap \<lparr>laps = 0, weather_data = []\<rparr> composite_world)
     = Inr [(1, ''45''), (2, ''67''), (3, ''124'')]
   \<and> (\<exists>ax'. fst (plot_track_status_highlights (subplots :: unit axes) \<lparr>laps = 0, weather_data = []\<rparr> composite_world) = Inr ax'
         \<and> length (spans ax') = 0)"
proof -
  have v: "fst (get_track_status_by_lap \<lparr>laps = 0, weather_data = []\<rparr> composite_world)
     = Inr [(1, ''45''), (2, ''67''), (3, ''124'')]"
    by code_simp
  from status_codes_exact[of _ _ "\<lparr>laps = 0, weather_data = []\<rparr>" composite_world
      "[(1, ''45''), (2, ''67''), (3, ''124'')]" "subplots :: unit axes"] v
  obtain ax' where "fst (plot_track_status_highlights (subplots :: unit axes) \<lparr>laps = 0, weather_data = []\<rparr> composite_world) = Inr ax'"
    and "length (spans ax') = length (spans (subplots :: unit axes))
               + length (filter (\<lambda>(n, st). st = ''4'' \<or> st = ''6'' \<or> st = ''7'') [(1::int, ''45''), (2, ''67''), (3, ''124'')])"
    by blast
  moreover from this(2) have "length (spans ax') = 0" by (simp add: subplots_def)
  ultimately show ?thesis using v by blast
qed

subsection \<open>The race trace\<close>

lemma plot_race_trace_eq:
  "plot_race_trace ext s rel ds w =
     (let w2 = w\<lparr>heap := heap w @ [(heap w ! laps s)\<lparr>CumulativeTime := Some (cumulative_time (session_laps s w))\<rparr>]\<rparr>;
          laps_df = with_cumulative_time (session_laps s w)
      in case race_trace_reference ext laps_df rel of
           Inl e \<Rightarrow> (Inl e, w2)
         | Inr None \<Rightarrow> (Inr None, w2\<lparr>stdout := stdout w @ [''Driver '' @ rel @ '' not found.'']\<rparr>)
         | Inr (Some (reference_times, title_text, ylabel_text)) \<Rightarrow>
             (case plot_track_status_highlights
                     (subplots\<lparr>title := title_text, xlabel := ''Lap Number'', ylabel := ylabel_text\<rparr>) s w2 of
                (Inl e, w3) \<Rightarrow> (Inl e, w3)
              | (Inr ax, w3) \<Rightarrow>
                  (let ax = fold (plot_driver_gaps ext laps_df reference_times)
                                 (case ds of None \<Rightarrow> unique (map (\<lambda>(r, c). Driver r) laps_df)
                                  | Some ds \<Rightarrow> if ds = [] then unique (map (\<lambda>(r, c). Driver r) laps_df) else ds)
                                 ax
                   in (Inr (Some (ax\<lparr>legend := True, grid := True, yaxis_inverted := \<not> yaxis_inverted ax\<rparr>)), w3))))"
  unfolding plot_race_trace_def copy_frame_def set_CumulativeTime_def table_of_def
    session_laps_def with_cumulative_time_def
  by (simp add: Let_def split: sum.split option.split prod.split)

lemma session_laps_extended:
  "valid_session s w \<Longrightarrow> session_laps s (w\<lparr>heap := heap w @ fs\<rparr>) = session_laps s w"
  by (simp add: session_laps_def valid_session_def nth_append)

lemma track_status_extended:
  "valid_session s w \<Longrightarrow>
     fst (get_track_status_by_lap s (w\<lparr>heap := heap w @ fs\<rparr>)) = fst (get_track_status_by_lap s w)"
  by (simp add: get_track_status_by_lap_eq session_laps_extended)

lemma highlights_stdout:
  "stdout (snd (plot_track_status_highlights ax s w)) = stdout w"
  by (simp add: plot_track_status_highlights_eq get_track_status_by_lap_eq)

lemma filter_as_positions:
  "filter P xs = map (\<lambda>i. xs ! i) (filter (\<lambda>i. P (xs ! i)) [0..<length xs])"
proof -
  have "filter P xs = filter P (map (\<lambda>i. xs ! i) [0..<length xs])" by (simp add: map_nth)
  also have "\<dots> = map (\<lambda>i. xs ! i) (filter (\<lambda>i. P (xs ! i)) [0..<length xs])"
    by (simp add: filter_map comp_def)
  finally show ?thesis .
qed

lemma driver_laps_positions:
  "filter (\<lambda>(r, c). Driver r = d) (with_cumulative_time df)
     = map (\<lambda>i. with_cumulative_time df ! i) (driver_rows df d)"
proof -
  let ?tbl = "with_cumulative_time df"
  have "filter (\<lambda>(r, c). Driver r = d) ?tbl
      = map (\<lambda>i. ?tbl ! i) (filter (\<lambda>i. (case ?tbl ! i of (r, c) \<Rightarrow> Driver r = d)) [0..<length ?tbl])"
    by (rule filter_as_positions)
  also have "filter (\<lambda>i. (case ?tbl ! i of (r, c) \<Rightarrow> Driver r = d)) [0..<length ?tbl]
      = driver_rows df d"
    unfolding driver_rows_def length_with_cumulative_time
    by (rule filter_cong) (simp_all add: with_cumulative_time_nth)
  finally show ?thesis .
qed

lemma driver_rows_bound: "i \<in> set (driver_rows df d) \<Longrightarrow> i < length df \<and> Driver (df ! i) = d"
  by (simp add: driver_rows_def)

lemma driver_rows_Nil_iff: "driver_rows df d = [] \<longleftrightarrow> d \<notin> Driver ` set df"
  unfolding driver_rows_def filter_empty_conv
  by (force simp: in_set_conv_nth image_iff)

lemma driver_laps_Nil_iff:
  "filter (\<lambda>(r, c). Driver r = d) (with_cumulative_time df) = [] \<longleftrightarrow> d \<notin> Driver ` set df"
  unfolding driver_laps_positions by (simp add: driver_rows_Nil_iff)

lemma fold_plot_driver_gaps:
  "fold (plot_driver_gaps ext tbl ref) ds ax =
     ax\<lparr>lines := lines ax @
          map (\<lambda>d. \<lparr>label = d,
                     xdata = map fst (gaps_df (filter (\<lambda>(r, c). Driver r = d) tbl) ref),
                     ydata = map snd (gaps_df (filter (\<lambda>(r, c). Driver r = d) tbl) ref),
                     style = get_driver_style ext d\<rparr>)
              (filter (\<lambda>d. filter (\<lambda>(r, c). Driver r = d) tbl \<noteq> []) ds)\<rparr>"
  by (induction ds arbitrary: ax) (simp_all add: plot_driver_gaps_def Let_def)

lemma race_trace_reference_None:
  "race_trace_reference ext (with_cumulative_time df) rel = Inr None \<longleftrightarrow>
     rel \<noteq> ''average'' \<and> rel \<noteq> ''leader'' \<and> rel \<notin> Driver ` set df"
  unfolding race_trace_reference_def
  by (simp add: Let_def driver_laps_Nil_iff split: sum.split)

lemma race_trace_reference_Inl:
  "race_trace_reference ext tbl rel = Inl e \<longleftrightarrow> rel = ''leader'' \<and> leader_laps tbl = Inl e"
  unfolding race_trace_reference_def
  by (simp add: Let_def split: sum.split)

lemma race_trace_reference_Some:
  assumes "rel = ''average'' \<or> rel = ''leader'' \<or> rel \<in> Driver ` set df"
    and "leader_laps (with_cumulative_time df) = Inr leaders"
  obtains ref t yl where "race_trace_reference ext (with_cumulative_time df) rel = Inr (Some (ref, t, yl))"
proof (cases "race_trace_reference ext (with_cumulative_time df) rel")
  case (Inl e)
  then show ?thesis using assms(2) by (simp add: race_trace_reference_Inl)
next
  case (Inr x)
  show ?thesis
  proof (cases x)
    case None
    then show ?thesis using Inr assms(1) by (simp add: race_trace_reference_None)
  next
    case (Some y)
    then show ?thesis using Inr that by (cases y) auto
  qed
qed

lemma map_Driver_table: "map (\<lambda>(r, c). Driver r) (with_cumulative_time df) = map Driver df"
proof -
  have "map (\<lambda>(r, c). Driver r) (with_cumulative_time df) = map Driver (map fst (with_cumulative_time df))"
    by (simp add: case_prod_unfold comp_def)
  then show ?thesis by (simp add: map_fst_with_cumulative_time)
qed

lemma plot_race_trace_returns:
  assumes "valid_session s w"
    and "fst (get_track_status_by_lap s w) = Inr view"
    and "race_trace_reference ext (with_cumulative_time (session_laps s w)) rel = Inr (Some (ref, t, yl))"
  shows "\<exists>ax. fst (plot_race_trace ext s rel ds w) = Inr (Some ax)
     \<and> lines ax =
          map (\<lambda>d. \<lparr>label = d,
                     xdata = map fst (gaps_df (filter (\<lambda>(r, c). Driver r = d) (with_cumulative_time (session_laps s w))) ref),
                     ydata = map snd (gaps_df (filter (\<lambda>(r, c). Driver r = d) (with_cumulative_time (session_laps s w))) ref),
                     style = get_driver_style ext d\<rparr>)
              (filter (\<lambda>d. d \<in> Driver ` set (session_laps s w))
                 (case ds of None \<Rightarrow> unique (map Driver (session_laps s w))
                  | Some ds \<Rightarrow> if ds = [] then unique (map Driver (session_laps s w)) else ds))
     \<and> title ax = t \<and> xlabel ax = ''Lap Number'' \<and> ylabel ax = yl
     \<and> legend ax \<and> grid ax \<and> yaxis_inverted ax"
    and "stdout (snd (plot_race_trace ext s rel ds w)) = stdout w"
proof -
  let ?df = "session_laps s w"
  let ?w2 = "w\<lparr>heap := heap w @ [(heap w ! laps s)\<lparr>CumulativeTime := Some (cumulative_time ?df)\<rparr>]\<rparr>"
  let ?ax0 = "(subplots :: 'a axes)\<lparr>title := t, xlabel := ''Lap Number'', ylabel := yl\<rparr>"
  have v2: "fst (get_track_status_by_lap s ?w2) = Inr view"
    using assms(1,2) by (simp add: track_status_extended)
  obtain ax1 w3 where h: "plot_track_status_highlights ?ax0 s ?w2 = (Inr ax1, w3)"
    and l1: "lines ax1 = []" and t1: "title ax1 = t" "xlabel ax1 = ''Lap Number''" "ylabel ax1 = yl"
      "\<not> yaxis_inverted ax1"
    unfolding plot_track_status_highlights_eq using v2 by (simp add: subplots_def)
  have so: "stdout w3 = stdout w"
    using highlights_stdout[of ?ax0 s ?w2] h by simp
  have pres: "(\<lambda>d. filter (\<lambda>(r, c). Driver r = d) (with_cumulative_time ?df) \<noteq> [])
            = (\<lambda>d. d \<in> Driver ` set ?df)"
    by (simp add: driver_laps_Nil_iff)
  show "\<exists>ax. fst (plot_race_trace ext s rel ds w) = Inr (Some ax)
     \<and> lines ax =
          map (\<lambda>d. \<lparr>label = d,
                     xdata = map fst (gaps_df (filter (\<lambda>(r, c). Driver r = d) (with_cumulative_time ?df)) ref),
                     ydata = map snd (gaps_df (filter (\<lambda>(r, c). Driver r = d) (with_cumulative_time ?df)) ref),
                     style = get_driver_style ext d\<rparr>)
              (filter (\<lambda>d. d \<in> Driver ` set ?df)
                 (case ds of None \<Rightarrow> unique (map Driver ?df)
                  | Some ds \<Rightarrow> if ds = [] then unique (map Driver ?df) else ds))
     \<and> title ax = t \<and> xlabel ax = ''Lap Number'' \<and> ylabel ax = yl
     \<and> legend ax \<and> grid ax \<and> yaxis_inverted ax"
    unfolding plot_race_trace_eq Let_def
    using assms(3) h l1 t1
    by (simp add: fold_plot_driver_gaps pres map_Driver_table split: option.split)
  show "stdout (snd (plot_race_trace ext s rel ds w)) = stdout w"
    unfolding plot_race_trace_eq Let_def
    using assms(3) h so by simp
qed

text \<open>
  Claim C5. \<^verbatim>\<open>plot_race_trace\<close> returns without a figure exactly when \<^verbatim>\<open>relative_to\<close> is
  neither \<open>average\<close> nor \<open>leader\<close> and names a driver without a row in the session's lap
  table. In that case, and in no other, it prints one line, \<open>Driver ... not found.\<close>, and
  it does not raise.
\<close>

theorem absent_reference_driver_reported:
  "(fst (plot_race_trace ext s relative_to drivers_to_plot w) = Inr None \<longleftrightarrow>
      relative_to \<noteq> ''average'' \<and> relative_to \<noteq> ''leader''
      \<and> relative_to \<notin> Driver ` set (session_laps s w))
   \<and> stdout (snd (plot_race_trace ext s relative_to drivers_to_plot w))
       = (if relative_to \<noteq> ''average'' \<and> relative_to \<noteq> ''leader''
             \<and> relative_to \<notin> Driver ` set (session_laps s w)
          then stdout w @ [''Driver '' @ relative_to @ '' not found.'']
          else stdout w)"
proof -
  let ?tbl = "with_cumulative_time (session_laps s w)"
  let ?absent = "relative_to \<noteq> ''average'' \<and> relative_to \<noteq> ''leader''
      \<and> relative_to \<notin> Driver ` set (session_laps s w)"
  show ?thesis
  proof (cases "race_trace_reference ext ?tbl relative_to")
    case (Inl e)
    then have "\<not> ?absent" using race_trace_reference_None[of ext "session_laps s w" relative_to] by simp
    then show ?thesis unfolding plot_race_trace_eq Let_def using Inl by simp
  next
    case (Inr x)
    show ?thesis
    proof (cases x)
      case None
      then have "?absent" using Inr race_trace_reference_None[of ext "session_laps s w" relative_to] by simp
      then show ?thesis unfolding plot_race_trace_eq Let_def using Inr None by simp
    next
      case (Some y)
      obtain ref t yl where y: "y = (ref, t, yl)" by (cases y) auto
      have na: "\<not> ?absent"
        using Inr Some race_trace_reference_None[of ext "session_laps s w" relative_to] by simp
      let ?w2 = "w\<lparr>heap := heap w @ [(heap w ! laps s)\<lparr>CumulativeTime := Some (cumulative_time (session_laps s w))\<rparr>]\<rparr>"
      let ?ax0 = "(subplots :: 'a axes)\<lparr>title := t, xlabel := ''Lap Number'', ylabel := yl\<rparr>"
      obtain r w3 where h: "plot_track_status_highlights ?ax0 s ?w2 = (r, w3)"
        by (cases "plot_track_status_highlights ?ax0 s ?w2") auto
      have so: "stdout w3 = stdout w" using highlights_stdout[of ?ax0 s ?w2] h by simp
      show ?thesis unfolding plot_race_trace_eq Let_def using Inr Some y h so na
        by (cases r) simp_all
    qed
  qed
qed

text \<open>
  The example session has no driver C: no figure, one line printed. With B as the
  reference a figure is returned and nothing is printed.
\<close>

theorem absent_reference_driver_reported_witness:
  "fst (plot_race_trace example_externals example_session ''C'' None example_world) = Inr None
   \<and> stdout (snd (plot_race_trace example_externals example_session ''C'' None example_world))
       = [''Driver C not found.'']
   \<and> fst (plot_race_trace example_externals example_session ''B'' None example_world) \<noteq> Inr None
   \<and> stdout (snd (plot_race_trace example_externals example_session ''B'' None example_world)) = []"
proof -
  have d: "Driver ` set (session_laps example_session example_world) = {''A'', ''B''}"
    by code_simp
  have w: "stdout example_world = []" by code_simp
  show ?thesis
    using absent_reference_driver_reported[of example_externals example_session "''C''" None example_world]
      absent_reference_driver_reported[of example_externals example_session "''B''" None example_world]
    unfolding d w by simp
qed

lemma plot_race_trace_skips_absent:
  assumes "filter (\<lambda>d. d \<in> Driver ` set (session_laps s w)) ds \<noteq> []"
  shows "plot_race_trace ext s rel (Some ds) w
       = plot_race_trace ext s rel (Some (filter (\<lambda>d. d \<in> Driver ` set (session_laps s w)) ds)) w"
proof -
  let ?df = "session_laps s w"
  let ?tbl = "with_cumulative_time ?df"
  let ?present = "\<lambda>d. d \<in> Driver ` set ?df"
  have ne: "ds \<noteq> []" using assms by auto
  have pres: "(\<lambda>d. filter (\<lambda>(r, c). Driver r = d) ?tbl \<noteq> []) = ?present"
    by (simp add: driver_laps_Nil_iff)
  have "fold (plot_driver_gaps ext ?tbl ref) ds ax
      = fold (plot_driver_gaps ext ?tbl ref) (filter ?present ds) ax" for ref and ax :: "'a axes"
    unfolding fold_plot_driver_gaps pres by simp
  then show ?thesis
    unfolding plot_race_trace_eq Let_def using ne assms
    by (simp split: sum.split option.split prod.split)
qed

text \<open>
  Claim C10. A driver code in \<^verbatim>\<open>drivers_to_plot\<close> that has no row in the session's lap
  table is skipped: as long as one listed driver has laps, the call does exactly what it
  does for the list without the absent codes. When the session is valid, the
  track-status view can be built and the reference is \<open>average\<close>, \<open>leader\<close> or a driver
  with laps, a figure is returned, nothing is printed, and the figure has one line for
  each listed driver that has laps, in the order of the list, and none for the others.
\<close>

theorem absent_plotted_driver_skipped:
  assumes "valid_session s w" and "ds \<noteq> []"
    and "fst (get_track_status_by_lap s w) = Inr view"
    and "rel = ''average'' \<or> rel = ''leader'' \<or> rel \<in> Driver ` set (session_laps s w)"
  shows "(\<exists>ax. fst (plot_race_trace ext s rel (Some ds) w) = Inr (Some ax)
            \<and> map label (lines ax) = filter (\<lambda>d. d \<in> Driver ` set (session_laps s w)) ds
            \<and> (\<forall>d\<in>set ds. d \<notin> Driver ` set (session_laps s w) \<longrightarrow> line_of ax d = None)
            \<and> (\<forall>d\<in>set ds. d \<in> Driver ` set (session_laps s w) \<longrightarrow> line_of ax d \<noteq> None))
       \<and> stdout (snd (plot_race_trace ext s rel (Some ds) w)) = stdout w
       \<and> (filter (\<lambda>d. d \<in> Driver ` set (session_laps s w)) ds \<noteq> [] \<longrightarrow>
            plot_race_trace ext s rel (Some ds) w
              = plot_race_trace ext s rel (Some (filter (\<lambda>d. d \<in> Driver ` set (session_laps s w)) ds)) w)"
proof -
  let ?df = "session_laps s w"
  let ?present = "\<lambda>d. d \<in> Driver ` set ?df"
  from assms(3) obtain leaders where l: "leader_laps (with_cumulative_time ?df) = Inr leaders"
    unfolding track_status_Inr_iff by blast
  from race_trace_reference_Some[OF assms(4) l, of ext]
  obtain ref t yl where r: "race_trace_reference ext (with_cumulative_time ?df) rel = Inr (Some (ref, t, yl))"
    by blast
  from plot_race_trace_returns(1)[OF assms(1,3) r, of "Some ds"] assms(2)
  obtain ax where ax: "fst (plot_race_trace ext s rel (Some ds) w) = Inr (Some ax)"
    and ln: "lines ax =
          map (\<lambda>d. \<lparr>label = d,
                     xdata = map fst (gaps_df (filter (\<lambda>(r, c). Driver r = d) (with_cumulative_time ?df)) ref),
                     ydata = map snd (gaps_df (filter (\<lambda>(r, c). Driver r = d) (with_cumulative_time ?df)) ref),
                     style = get_driver_style ext d\<rparr>)
              (filter ?present ds)"
    by auto
  have lab: "map label (lines ax) = filter ?present ds"
    unfolding ln by (simp add: comp_def)
  have f: "line_of ax d = None \<longleftrightarrow> d \<notin> set (filter ?present ds)" for d
  proof -
    have "line_of ax d = None \<longleftrightarrow> d \<notin> set (map label (lines ax))"
      unfolding line_of_def find_None_iff by auto
    then show ?thesis unfolding lab .
  qed
  have A: "\<forall>d\<in>set ds. d \<notin> Driver ` set ?df \<longrightarrow> line_of ax d = None"
    unfolding f by simp
  have B: "\<forall>d\<in>set ds. d \<in> Driver ` set ?df \<longrightarrow> line_of ax d \<noteq> None"
    unfolding f by simp
  have C: "stdout (snd (plot_race_trace ext s rel (Some ds) w)) = stdout w"
    by (rule plot_race_trace_returns(2)[OF assms(1,3) r])
  have D: "filter ?present ds \<noteq> [] \<longrightarrow>
            plot_race_trace ext s rel (Some ds) w
              = plot_race_trace ext s rel (Some (filter ?present ds)) w"
    using plot_race_trace_skips_absent by blast
  from ax lab A B C D show ?thesis by blast
qed

text \<open>
  In the example session, with the list A, X, B the figure has the lines of A and B and
  nothing is printed, where the absent reference X gives no figure and a printed line.
\<close>

theorem absent_plotted_driver_skipped_witness:
  "valid_session example_session example_world
   \<and> fst (get_track_status_by_lap example_session example_world) = Inr [(1, ''1''), (2, ''6''), (3, ''4'')]
   \<and> (\<exists>ax. fst (plot_race_trace example_externals example_session ''average'' (Some [''A'', ''X'', ''B'']) example_world)
              = Inr (Some ax)
          \<and> map label (lines ax) = [''A'', ''B''])
   \<and> stdout (snd (plot_race_trace example_externals example_session ''average'' (Some [''A'', ''X'', ''B'']) example_world)) = []
   \<and> fst (plot_race_trace example_externals example_session ''X'' (Some [''A'', ''X'', ''B'']) example_world) = Inr None
   \<and> stdout (snd (plot_race_trace example_externals example_session ''X'' (Some [''A'', ''X'', ''B'']) example_world))
       = [''Driver X not found.'']"
proof -
  have vs: "valid_session example_session example_world" by code_simp
  have v: "fst (get_track_status_by_lap example_session example_world) = Inr [(1, ''1''), (2, ''6''), (3, ''4'')]"
    by code_simp
  have d: "Driver ` set (session_laps example_session example_world) = {''A'', ''B''}"
    by code_simp
  have w: "stdout example_world = []" by code_simp
  have ne: "[''A'', ''X'', ''B''] \<noteq> []" by simp
  have m: "''average'' = ''average'' \<or> ''average'' = ''leader''
      \<or> ''average'' \<in> Driver ` set (session_laps example_session example_world)" by simp
  from absent_plotted_driver_skipped[OF vs ne v m, of example_externals]
  have "(\<exists>ax. fst (plot_race_trace example_externals example_session ''average'' (Some [''A'', ''X'', ''B'']) example_world)
              = Inr (Some ax)
          \<and> map label (lines ax) = [''A'', ''B''])"
    and "stdout (snd (plot_race_trace example_externals example_session ''average'' (Some [''A'', ''X'', ''B'']) example_world)) = []"
    unfolding d w by auto
  moreover have "fst (plot_race_trace example_externals example_session ''X'' (Some [''A'', ''X'', ''B'']) example_world) = Inr None"
    by code_simp
  moreover have "stdout (snd (plot_race_trace example_externals example_session ''X'' (Some [''A'', ''X'', ''B'']) example_world))
       = [''Driver X not found.'']"
    by code_simp
  ultimately show ?thesis using vs v by blast
qed

lemma filter_key_distinct:
  "distinct (map fst ref) \<Longrightarrow>
     filter (\<lambda>(n, v). n = k) ref = (case map_of ref k of None \<Rightarrow> [] | Some v \<Rightarrow> [(k, v)])"
proof (induction ref)
  case Nil
  then show ?case by simp
next
  case (Cons a ref)
  obtain n v where a: "a = (n, v)" by (cases a) auto
  show ?case
  proof (cases "n = k")
    case True
    then have "k \<notin> fst ` set ref" using Cons.prems a by auto
    then have "filter (\<lambda>(n, v). n = k) ref = []"
      unfolding filter_empty_conv by (auto simp: image_iff)
    then show ?thesis using True a by simp
  next
    case False
    then show ?thesis using Cons a by simp
  qed
qed

lemma merge_covered:
  assumes "distinct (map fst ref)" and "\<forall>x\<in>set driver_laps. LapNumber (fst x) \<in> fst ` set ref"
  shows "merge_on_LapNumber driver_laps ref
       = map (\<lambda>(r, c). (LapNumber r, c, the (map_of ref (LapNumber r)))) driver_laps"
  using assms(2)
proof (induction driver_laps)
  case Nil
  then show ?case by (simp add: merge_on_LapNumber_def)
next
  case (Cons a xs)
  obtain r c where a: "a = (r, c)" by (cases a) auto
  from Cons.prems a have "LapNumber r \<in> fst ` set ref" by simp
  then obtain v where v: "map_of ref (LapNumber r) = Some v"
    by (metis domD dom_map_of_conv_image_fst)
  have f: "filter (\<lambda>(n, v). n = LapNumber r) ref = [(LapNumber r, v)]"
    using filter_key_distinct[OF assms(1), of "LapNumber r"] v by simp
  have IH: "merge_on_LapNumber xs ref
       = map (\<lambda>(r, c). (LapNumber r, c, the (map_of ref (LapNumber r)))) xs"
    using Cons by simp
  have "merge_on_LapNumber (a # xs) ref
      = map (\<lambda>(n, ref). (LapNumber r, c, ref)) (filter (\<lambda>(n, v). n = LapNumber r) ref)
        @ merge_on_LapNumber xs ref"
    unfolding merge_on_LapNumber_def a by simp
  then show ?case unfolding IH f using a v by simp
qed

lemma gaps_df_covered:
  assumes "distinct (map fst ref)" and "\<forall>x\<in>set driver_laps. LapNumber (fst x) \<in> fst ` set ref"
  shows "gaps_df driver_laps ref
       = map (\<lambda>(r, c). (LapNumber r,
                 map_option total_seconds (td_sub c (the (map_of ref (LapNumber r)))))) driver_laps"
  unfolding gaps_df_def merge_covered[OF assms]
  by (simp add: case_prod_unfold comp_def)

lemma table_row:
  "i < length df \<Longrightarrow>
     with_cumulative_time df ! i = (df ! i, map_option (\<lambda>_. running_sum df i) (LapTime (df ! i)))"
  by (simp add: with_cumulative_time_nth cumulative_time_nth)

lemma driver_gaps_covered:
  assumes "distinct (map fst ref)"
    and "\<forall>i\<in>set (driver_rows df d). LapNumber (df ! i) \<in> fst ` set ref"
  shows "gaps_df (filter (\<lambda>(r, c). Driver r = d) (with_cumulative_time df)) ref
       = map (\<lambda>i. (LapNumber (df ! i),
                 map_option total_seconds
                   (td_sub (map_option (\<lambda>_. running_sum df i) (LapTime (df ! i)))
                           (the (map_of ref (LapNumber (df ! i))))))) (driver_rows df d)"
proof -
  let ?tbl = "with_cumulative_time df"
  have cov: "\<forall>x\<in>set (filter (\<lambda>(r, c). Driver r = d) ?tbl). LapNumber (fst x) \<in> fst ` set ref"
  proof
    fix x assume "x \<in> set (filter (\<lambda>(r, c). Driver r = d) ?tbl)"
    then obtain i where i: "i \<in> set (driver_rows df d)" and x: "x = ?tbl ! i"
      unfolding driver_laps_positions by auto
    from i have "i < length df" by (simp add: driver_rows_bound)
    then have "fst x = df ! i" using x by (simp add: with_cumulative_time_nth)
    then show "LapNumber (fst x) \<in> fst ` set ref" using assms(2) i by simp
  qed
  have "gaps_df (filter (\<lambda>(r, c). Driver r = d) ?tbl) ref
      = map (\<lambda>(r, c). (LapNumber r,
                 map_option total_seconds (td_sub c (the (map_of ref (LapNumber r))))))
            (map (\<lambda>i. ?tbl ! i) (driver_rows df d))"
    using gaps_df_covered[OF assms(1) cov] unfolding driver_laps_positions .
  also have "\<dots> = map (\<lambda>i. (LapNumber (df ! i),
                 map_option total_seconds
                   (td_sub (map_option (\<lambda>_. running_sum df i) (LapTime (df ! i)))
                           (the (map_of ref (LapNumber (df ! i))))))) (driver_rows df d)"
    unfolding map_map
  proof (rule map_cong[OF refl])
    fix i assume "i \<in> set (driver_rows df d)"
    then have "i < length df" by (simp add: driver_rows_bound)
    then show "((\<lambda>(r, c). (LapNumber r,
                 map_option total_seconds (td_sub c (the (map_of ref (LapNumber r)))))) \<circ> (\<lambda>i. ?tbl ! i)) i
       = (LapNumber (df ! i),
                 map_option total_seconds
                   (td_sub (map_option (\<lambda>_. running_sum df i) (LapTime (df ! i)))
                           (the (map_of ref (LapNumber (df ! i))))))"
      by (simp add: table_row)
  qed
  finally show ?thesis .
qed

lemma leads_lap_same_sum:
  assumes "leads_lap df i" "leads_lap df j" "i < length df" "j < length df"
    and "LapNumber (df ! i) = LapNumber (df ! j)"
  shows "running_sum df i = running_sum df j"
proof -
  have "running_sum df i \<le> running_sum df j"
    using assms(1,2,4,5) unfolding leads_lap_iff by metis
  moreover have "running_sum df j \<le> running_sum df i"
    using assms(1,2,3,5) unfolding leads_lap_iff by metis
  ultimately show ?thesis by simp
qed

lemma leader_reference:
  assumes "leader_laps (with_cumulative_time df) = Inr leaders"
  shows "distinct (map fst (set_index_LapNumber leaders))"
    and "fst ` set (set_index_LapNumber leaders) = LapNumber ` set df"
    and "i < length df \<Longrightarrow> leads_lap df i \<Longrightarrow>
           map_of (set_index_LapNumber leaders) (LapNumber (df ! i)) = Some (Some (running_sum df i))"
proof -
  let ?tbl = "with_cumulative_time df"
  let ?ref = "set_index_LapNumber leaders"
  have k: "map fst ?ref = group_keys (map LapNumber df)"
  proof -
    have "map fst ?ref = map (\<lambda>(r, c). LapNumber r) leaders"
      unfolding set_index_LapNumber_def by (simp add: case_prod_unfold comp_def)
    then show ?thesis using leader_laps_Inr(1)[OF assms] unfolding leader_keys by simp
  qed
  show d: "distinct (map fst ?ref)" unfolding k by (simp add: group_keys_def)
  have "fst ` set ?ref = set (map fst ?ref)" by simp
  then show s: "fst ` set ?ref = LapNumber ` set df" unfolding k by (simp add: group_keys_set)
  assume i: "i < length df" and li: "leads_lap df i"
  have "LapNumber (df ! i) \<in> fst ` set ?ref" unfolding s using i by simp
  then obtain y where y: "(LapNumber (df ! i), y) \<in> set ?ref" by force
  then obtain p where p: "p < length leaders" and rp: "?ref ! p = (LapNumber (df ! i), y)"
    by (metis in_set_conv_nth length_map set_index_LapNumber_def)
  from leader_laps_Inr(2)[OF assms p] obtain j where j: "j < length ?tbl"
    and e: "leaders ! p = ?tbl ! j" and lj: "is_leader_row ?tbl j" by blast
  have j': "j < length df" using j by (simp add: length_with_cumulative_time)
  have ll: "leads_lap df j" by (rule is_leader_row_leads_lap[OF lj j'])
  then have tj: "LapTime (df ! j) \<noteq> None" unfolding leads_lap_iff by simp
  have "?ref ! p = (LapNumber (df ! j), map_option (\<lambda>_. running_sum df j) (LapTime (df ! j)))"
    using p e j' by (simp add: set_index_LapNumber_def table_row)
  then have n: "LapNumber (df ! j) = LapNumber (df ! i)" and yv: "y = Some (running_sum df j)"
    using rp tj by auto
  have "running_sum df j = running_sum df i"
    by (rule leads_lap_same_sum[OF ll li j' i n])
  then have "(LapNumber (df ! i), Some (running_sum df i)) \<in> set ?ref" using y yv by simp
  then show "map_of ?ref (LapNumber (df ! i)) = Some (Some (running_sum df i))"
    using d by simp
qed

lemma own_reference:
  assumes "distinct (map (\<lambda>i. LapNumber (df ! i)) (driver_rows df d))"
  shows "distinct (map fst (set_index_LapNumber (filter (\<lambda>(r, c). Driver r = d) (with_cumulative_time df))))"
    and "i \<in> set (driver_rows df d) \<Longrightarrow>
           map_of (set_index_LapNumber (filter (\<lambda>(r, c). Driver r = d) (with_cumulative_time df)))
                  (LapNumber (df ! i))
             = Some (map_option (\<lambda>_. running_sum df i) (LapTime (df ! i)))"
proof -
  let ?ref = "set_index_LapNumber (filter (\<lambda>(r, c). Driver r = d) (with_cumulative_time df))"
  have r: "?ref = map (\<lambda>i. (LapNumber (df ! i), map_option (\<lambda>_. running_sum df i) (LapTime (df ! i))))
                      (driver_rows df d)"
    unfolding set_index_LapNumber_def driver_laps_positions map_map
    by (rule map_cong[OF refl]) (simp add: driver_rows_bound table_row)
  have "map fst ?ref = map (\<lambda>i. LapNumber (df ! i)) (driver_rows df d)"
    unfolding r by (simp add: comp_def)
  then show d: "distinct (map fst ?ref)" using assms by simp
  assume "i \<in> set (driver_rows df d)"
  then have "(LapNumber (df ! i), map_option (\<lambda>_. running_sum df i) (LapTime (df ! i))) \<in> set ?ref"
    unfolding r by auto
  then show "map_of ?ref (LapNumber (df ! i))
             = Some (map_option (\<lambda>_. running_sum df i) (LapTime (df ! i)))"
    using d by simp
qed

lemma set_unique: "set (unique xs) = set xs"
  by (simp add: unique_def)

lemma race_trace_reference_leader:
  "leader_laps tbl = Inr leaders \<Longrightarrow>
     race_trace_reference ext tbl ''leader''
       = Inr (Some (set_index_LapNumber leaders, ''Race Gaps to Leader'', ''Gap to Leader (s)''))"
  by (simp add: race_trace_reference_def)

lemma race_trace_reference_driver:
  assumes "rel \<noteq> ''average''" "rel \<noteq> ''leader''" "rel \<in> Driver ` set df"
  shows "race_trace_reference ext (with_cumulative_time df) rel
       = Inr (Some (set_index_LapNumber (filter (\<lambda>(r, c). Driver r = rel) (with_cumulative_time df)),
                    ''Race Gaps Relative to '' @ rel, ''Gap to '' @ rel @ '' (s)''))"
proof -
  have "filter (\<lambda>(r, c). Driver r = rel) (with_cumulative_time df) \<noteq> []"
    using assms(3) by (simp add: driver_laps_Nil_iff)
  then show ?thesis using assms(1,2) by (simp add: race_trace_reference_def Let_def)
qed

lemma gap_to_sum:
  "map_option total_seconds (td_sub (map_option (\<lambda>_. a) t) (Some b))
     = map_option (\<lambda>_. total_seconds (a - b)) t"
  by (cases t) (simp_all add: td_sub_def)

lemma leader_gap_line:
  assumes "leader_laps (with_cumulative_time df) = Inr leaders"
  shows "map fst (gaps_df (filter (\<lambda>(r, c). Driver r = d) (with_cumulative_time df)) (set_index_LapNumber leaders))
           = map (\<lambda>i. LapNumber (df ! i)) (driver_rows df d)"
    and "length (map snd (gaps_df (filter (\<lambda>(r, c). Driver r = d) (with_cumulative_time df)) (set_index_LapNumber leaders)))
           = length (driver_rows df d)"
    and "j < length (driver_rows df d) \<Longrightarrow> i' < length df \<Longrightarrow> leads_lap df i' \<Longrightarrow>
         LapNumber (df ! i') = LapNumber (df ! (driver_rows df d ! j)) \<Longrightarrow>
           map snd (gaps_df (filter (\<lambda>(r, c). Driver r = d) (with_cumulative_time df)) (set_index_LapNumber leaders)) ! j
             = map_option (\<lambda>_. total_seconds (running_sum df (driver_rows df d ! j) - running_sum df i'))
                          (LapTime (df ! (driver_rows df d ! j)))"
proof -
  let ?ref = "set_index_LapNumber leaders"
  let ?g = "gaps_df (filter (\<lambda>(r, c). Driver r = d) (with_cumulative_time df)) ?ref"
  note R = leader_reference[OF assms]
  have cov: "\<forall>i\<in>set (driver_rows df d). LapNumber (df ! i) \<in> fst ` set ?ref"
    unfolding R(2) by (simp add: driver_rows_bound)
  note G = driver_gaps_covered[OF R(1) cov]
  show "map fst ?g = map (\<lambda>i. LapNumber (df ! i)) (driver_rows df d)"
    unfolding G by (simp add: comp_def)
  show "length (map snd ?g) = length (driver_rows df d)"
    unfolding G by simp
  assume j: "j < length (driver_rows df d)" and i': "i' < length df" and l: "leads_lap df i'"
    and n: "LapNumber (df ! i') = LapNumber (df ! (driver_rows df d ! j))"
  have "map_of ?ref (LapNumber (df ! (driver_rows df d ! j))) = Some (Some (running_sum df i'))"
    using R(3)[OF i' l] n by simp
  then show "map snd ?g ! j
             = map_option (\<lambda>_. total_seconds (running_sum df (driver_rows df d ! j) - running_sum df i'))
                          (LapTime (df ! (driver_rows df d ! j)))"
    unfolding G using j by (simp add: gap_to_sum)
qed

lemma leader_gap_zero:
  assumes "leader_laps (with_cumulative_time df) = Inr leaders"
    and "j < length (driver_rows df d)" and "leads_lap df (driver_rows df d ! j)"
  shows "map snd (gaps_df (filter (\<lambda>(r, c). Driver r = d) (with_cumulative_time df)) (set_index_LapNumber leaders)) ! j
           = Some 0"
proof -
  let ?i = "driver_rows df d ! j"
  have i: "?i < length df" using assms(2) driver_rows_bound nth_mem by blast
  have t: "LapTime (df ! ?i) \<noteq> None" using assms(3) unfolding leads_lap_iff by simp
  show ?thesis
    unfolding leader_gap_line(3)[OF assms(1,2) i assms(3) refl]
    using t by (auto simp: total_seconds_def)
qed

lemma own_gap_line:
  assumes "distinct (map (\<lambda>i. LapNumber (df ! i)) (driver_rows df d))"
  shows "gaps_df (filter (\<lambda>(r, c). Driver r = d) (with_cumulative_time df))
                 (set_index_LapNumber (filter (\<lambda>(r, c). Driver r = d) (with_cumulative_time df)))
           = map (\<lambda>i. (LapNumber (df ! i), map_option (\<lambda>_. 0) (LapTime (df ! i)))) (driver_rows df d)"
proof -
  let ?ref = "set_index_LapNumber (filter (\<lambda>(r, c). Driver r = d) (with_cumulative_time df))"
  note R = own_reference[OF assms]
  have cov: "\<forall>i\<in>set (driver_rows df d). LapNumber (df ! i) \<in> fst ` set ?ref"
  proof
    fix i assume "i \<in> set (driver_rows df d)"
    from R(2)[OF this] show "LapNumber (df ! i) \<in> fst ` set ?ref"
      by (metis domI dom_map_of_conv_image_fst)
  qed
  show ?thesis
    unfolding driver_gaps_covered[OF R(1) cov]
  proof (rule map_cong[OF refl])
    fix i assume i: "i \<in> set (driver_rows df d)"
    show "(LapNumber (df ! i),
           map_option total_seconds
             (td_sub (map_option (\<lambda>_. running_sum df i) (LapTime (df ! i)))
                     (the (map_of ?ref (LapNumber (df ! i))))))
        = (LapNumber (df ! i), map_option (\<lambda>_. 0) (LapTime (df ! i)))"
      unfolding R(2)[OF i] by (cases "LapTime (df ! i)") (simp_all add: td_sub_def total_seconds_def)
  qed
qed

text \<open>
  Claim C3. For a valid session whose track-status view can be built,
  \<^verbatim>\<open>plot_race_trace\<close> in mode \<open>leader\<close> returns a figure in which the line of a driver has
  one point per row of that driver, at the row's lap number; the gap of a row is its
  running sum minus the running sum of the row that leads the same lap number, in
  seconds (missing when the row has no lap duration), so on a row that leads its lap
  number the gap is exactly zero; when all drivers are drawn, every leading row is a
  point with gap zero of some line. With a driver as reference, whose rows have
  different lap numbers (one row per driver and lap), the line of that driver is zero
  at every row that has a lap duration and missing elsewhere.
\<close>

theorem race_trace_zero_gap:
  assumes "valid_session s w" and "fst (get_track_status_by_lap s w) = Inr view"
  shows
    "(\<exists>ax. fst (plot_race_trace ext s ''leader'' ds w) = Inr (Some ax)
        \<and> (\<forall>l\<in>set (lines ax).
              xdata l = map (\<lambda>i. LapNumber (session_laps s w ! i)) (driver_rows (session_laps s w) (label l))
            \<and> length (ydata l) = length (driver_rows (session_laps s w) (label l))
            \<and> (\<forall>j<length (driver_rows (session_laps s w) (label l)).
                  (leads_lap (session_laps s w) (driver_rows (session_laps s w) (label l) ! j) \<longrightarrow> ydata l ! j = Some 0)
                \<and> (\<forall>i'<length (session_laps s w).
                      leads_lap (session_laps s w) i'
                      \<and> LapNumber (session_laps s w ! i') = LapNumber (session_laps s w ! (driver_rows (session_laps s w) (label l) ! j)) \<longrightarrow>
                        ydata l ! j
                          = map_option (\<lambda>_. of_int (running_sum (session_laps s w) (driver_rows (session_laps s w) (label l) ! j)
                                                              - running_sum (session_laps s w) i') / 1000000000)
                                       (LapTime (session_laps s w ! (driver_rows (session_laps s w) (label l) ! j))))))
        \<and> (ds = None \<longrightarrow>
              (\<forall>i<length (session_laps s w). leads_lap (session_laps s w) i \<longrightarrow>
                 (\<exists>l\<in>set (lines ax). label l = Driver (session_laps s w ! i)
                    \<and> (LapNumber (session_laps s w ! i), Some 0) \<in> set (zip (xdata l) (ydata l))))))
     \<and> (rel \<noteq> ''average'' \<and> rel \<noteq> ''leader'' \<and> rel \<in> Driver ` set (session_laps s w)
          \<and> distinct (map (\<lambda>i. LapNumber (session_laps s w ! i)) (driver_rows (session_laps s w) rel)) \<longrightarrow>
          (\<exists>ax. fst (plot_race_trace ext s rel ds w) = Inr (Some ax)
             \<and> (\<forall>l\<in>set (lines ax). label l = rel \<longrightarrow>
                   xdata l = map (\<lambda>i. LapNumber (session_laps s w ! i)) (driver_rows (session_laps s w) rel)
                 \<and> ydata l = map (\<lambda>i. map_option (\<lambda>_. 0) (LapTime (session_laps s w ! i))) (driver_rows (session_laps s w) rel))
             \<and> ((\<forall>ds'. ds = Some ds' \<and> ds' \<noteq> [] \<longrightarrow> rel \<in> set ds') \<longrightarrow> line_of ax rel \<noteq> None)))"
proof (intro conjI impI)
  let ?df = "session_laps s w"
  let ?tbl = "with_cumulative_time ?df"
  let ?L = "case ds of None \<Rightarrow> unique (map Driver ?df)
            | Some ds \<Rightarrow> if ds = [] then unique (map Driver ?df) else ds"
  from assms(2) obtain leaders where ld: "leader_laps ?tbl = Inr leaders"
    unfolding track_status_Inr_iff by blast
  let ?ref = "set_index_LapNumber leaders"
  let ?mk = "\<lambda>d. \<lparr>label = d,
                     xdata = map fst (gaps_df (filter (\<lambda>(r, c). Driver r = d) ?tbl) ?ref),
                     ydata = map snd (gaps_df (filter (\<lambda>(r, c). Driver r = d) ?tbl) ?ref),
                     style = get_driver_style ext d\<rparr>"
  from plot_race_trace_returns(1)[OF assms race_trace_reference_leader[OF ld], of ext ds]
  obtain ax where ax: "fst (plot_race_trace ext s ''leader'' ds w) = Inr (Some ax)"
    and ln: "lines ax = map ?mk (filter (\<lambda>d. d \<in> Driver ` set ?df) ?L)"
    by blast
  have per_line: "\<forall>l\<in>set (lines ax).
              xdata l = map (\<lambda>i. LapNumber (session_laps s w ! i)) (driver_rows (session_laps s w) (label l))
            \<and> length (ydata l) = length (driver_rows (session_laps s w) (label l))
            \<and> (\<forall>j<length (driver_rows (session_laps s w) (label l)).
                  (leads_lap (session_laps s w) (driver_rows (session_laps s w) (label l) ! j) \<longrightarrow> ydata l ! j = Some 0)
                \<and> (\<forall>i'<length (session_laps s w).
                      leads_lap (session_laps s w) i'
                      \<and> LapNumber (session_laps s w ! i') = LapNumber (session_laps s w ! (driver_rows (session_laps s w) (label l) ! j)) \<longrightarrow>
                        ydata l ! j
                          = map_option (\<lambda>_. of_int (running_sum (session_laps s w) (driver_rows (session_laps s w) (label l) ! j)
                                                              - running_sum (session_laps s w) i') / 1000000000)
                                       (LapTime (session_laps s w ! (driver_rows (session_laps s w) (label l) ! j)))))"
  proof
    fix l assume l: "l \<in> set (lines ax)"
    from l obtain d where l': "l = ?mk d" unfolding ln by auto
    have lab: "label l = d" and x: "xdata l = map fst (gaps_df (filter (\<lambda>(r, c). Driver r = d) ?tbl) ?ref)"
      and y: "ydata l = map snd (gaps_df (filter (\<lambda>(r, c). Driver r = d) ?tbl) ?ref)"
      unfolding l' by simp_all
    show "xdata l = map (\<lambda>i. LapNumber (session_laps s w ! i)) (driver_rows (session_laps s w) (label l))
            \<and> length (ydata l) = length (driver_rows (session_laps s w) (label l))
            \<and> (\<forall>j<length (driver_rows (session_laps s w) (label l)).
                  (leads_lap (session_laps s w) (driver_rows (session_laps s w) (label l) ! j) \<longrightarrow> ydata l ! j = Some 0)
                \<and> (\<forall>i'<length (session_laps s w).
                      leads_lap (session_laps s w) i'
                      \<and> LapNumber (session_laps s w ! i') = LapNumber (session_laps s w ! (driver_rows (session_laps s w) (label l) ! j)) \<longrightarrow>
                        ydata l ! j
                          = map_option (\<lambda>_. of_int (running_sum (session_laps s w) (driver_rows (session_laps s w) (label l) ! j)
                                                              - running_sum (session_laps s w) i') / 1000000000)
                                       (LapTime (session_laps s w ! (driver_rows (session_laps s w) (label l) ! j)))))"
      unfolding lab x y
    proof (intro conjI allI impI)
      show "map fst (gaps_df (filter (\<lambda>(r, c). Driver r = d) ?tbl) ?ref)
              = map (\<lambda>i. LapNumber (session_laps s w ! i)) (driver_rows (session_laps s w) d)"
        by (rule leader_gap_line(1)[OF ld])
      show "length (map snd (gaps_df (filter (\<lambda>(r, c). Driver r = d) ?tbl) ?ref))
              = length (driver_rows (session_laps s w) d)"
        by (rule leader_gap_line(2)[OF ld])
    next
      fix j assume "j < length (driver_rows (session_laps s w) d)" and "leads_lap (session_laps s w) (driver_rows (session_laps s w) d ! j)"
      then show "map snd (gaps_df (filter (\<lambda>(r, c). Driver r = d) ?tbl) ?ref) ! j = Some 0"
        by (rule leader_gap_zero[OF ld])
    next
      fix j i' assume j: "j < length (driver_rows (session_laps s w) d)" and i': "i' < length (session_laps s w)"
        and c: "leads_lap (session_laps s w) i'
                      \<and> LapNumber (session_laps s w ! i') = LapNumber (session_laps s w ! (driver_rows (session_laps s w) d ! j))"
      from c have c1: "leads_lap (session_laps s w) i'"
        and c2: "LapNumber (session_laps s w ! i') = LapNumber (session_laps s w ! (driver_rows (session_laps s w) d ! j))" by simp_all
      show "map snd (gaps_df (filter (\<lambda>(r, c). Driver r = d) ?tbl) ?ref) ! j
              = map_option (\<lambda>_. of_int (running_sum (session_laps s w) (driver_rows (session_laps s w) d ! j)
                                                              - running_sum (session_laps s w) i') / 1000000000)
                           (LapTime (session_laps s w ! (driver_rows (session_laps s w) d ! j)))"
        using leader_gap_line(3)[OF ld j i' c1 c2] by (simp add: total_seconds_def)
    qed
  qed
  have all_drawn: "ds = None \<longrightarrow>
              (\<forall>i<length (session_laps s w). leads_lap (session_laps s w) i \<longrightarrow>
                 (\<exists>l\<in>set (lines ax). label l = Driver (session_laps s w ! i)
                    \<and> (LapNumber (session_laps s w ! i), Some 0) \<in> set (zip (xdata l) (ydata l))))"
  proof (intro impI allI)
    fix i assume n: "ds = None" and i: "i < length (session_laps s w)" and li: "leads_lap (session_laps s w) i"
    let ?d = "Driver (session_laps s w ! i)"
    have pd: "?d \<in> Driver ` set (session_laps s w)" using i by simp
    have "?d \<in> set (filter (\<lambda>d. d \<in> Driver ` set (session_laps s w)) ?L)"
      using n pd by (simp add: set_unique)
    then have m: "?mk ?d \<in> set (lines ax)" unfolding ln by simp
    have "i \<in> set (driver_rows (session_laps s w) ?d)" using i by (simp add: driver_rows_def)
    then obtain j where j: "j < length (driver_rows (session_laps s w) ?d)" and ij: "driver_rows (session_laps s w) ?d ! j = i"
      by (auto simp: in_set_conv_nth)
    have xs: "xdata (?mk ?d) = map (\<lambda>i. LapNumber (session_laps s w ! i)) (driver_rows (session_laps s w) ?d)"
      using leader_gap_line(1)[OF ld, where d = ?d] by simp
    have ly: "length (ydata (?mk ?d)) = length (driver_rows (session_laps s w) ?d)"
      using leader_gap_line(2)[OF ld, where d = ?d] by simp
    have li': "leads_lap (session_laps s w) (driver_rows (session_laps s w) ?d ! j)" using li ij by simp
    have yj: "ydata (?mk ?d) ! j = Some 0"
      using leader_gap_zero[OF ld j li'] by simp
    have xj: "xdata (?mk ?d) ! j = LapNumber (session_laps s w ! i)"
      unfolding xs using j ij by simp
    have lx: "j < length (xdata (?mk ?d))" unfolding xs using j by simp
    have ly': "j < length (ydata (?mk ?d))" unfolding ly using j .
    have "zip (xdata (?mk ?d)) (ydata (?mk ?d)) ! j = (LapNumber (session_laps s w ! i), Some 0)"
      using lx ly' xj yj by (simp only: nth_zip)
    moreover have "j < length (zip (xdata (?mk ?d)) (ydata (?mk ?d)))" using lx ly' by simp
    ultimately have "(LapNumber (session_laps s w ! i), Some 0) \<in> set (zip (xdata (?mk ?d)) (ydata (?mk ?d)))"
      by (metis nth_mem)
    moreover have "label (?mk ?d) = ?d" by simp
    ultimately show "\<exists>l\<in>set (lines ax). label l = Driver (session_laps s w ! i)
                    \<and> (LapNumber (session_laps s w ! i), Some 0) \<in> set (zip (xdata l) (ydata l))"
      using m by (intro bexI[of _ "?mk ?d"] conjI)
  qed
  show "\<exists>ax. fst (plot_race_trace ext s ''leader'' ds w) = Inr (Some ax)
        \<and> (\<forall>l\<in>set (lines ax).
              xdata l = map (\<lambda>i. LapNumber (?df ! i)) (driver_rows ?df (label l))
            \<and> length (ydata l) = length (driver_rows ?df (label l))
            \<and> (\<forall>j<length (driver_rows ?df (label l)).
                  (leads_lap ?df (driver_rows ?df (label l) ! j) \<longrightarrow> ydata l ! j = Some 0)
                \<and> (\<forall>i'<length ?df.
                      leads_lap ?df i'
                      \<and> LapNumber (?df ! i') = LapNumber (?df ! (driver_rows ?df (label l) ! j)) \<longrightarrow>
                        ydata l ! j
                          = map_option (\<lambda>_. of_int (running_sum ?df (driver_rows ?df (label l) ! j)
                                                              - running_sum ?df i') / 1000000000)
                                       (LapTime (?df ! (driver_rows ?df (label l) ! j))))))
        \<and> (ds = None \<longrightarrow>
              (\<forall>i<length ?df. leads_lap ?df i \<longrightarrow>
                 (\<exists>l\<in>set (lines ax). label l = Driver (?df ! i)
                    \<and> (LapNumber (?df ! i), Some 0) \<in> set (zip (xdata l) (ydata l)))))"
    by (intro exI[of _ ax] conjI ax per_line all_drawn)
next
  let ?df = "session_laps s w"
  let ?tbl = "with_cumulative_time ?df"
  let ?L = "case ds of None \<Rightarrow> unique (map Driver ?df)
            | Some ds \<Rightarrow> if ds = [] then unique (map Driver ?df) else ds"
  assume h: "rel \<noteq> ''average'' \<and> rel \<noteq> ''leader'' \<and> rel \<in> Driver ` set ?df
          \<and> distinct (map (\<lambda>i. LapNumber (?df ! i)) (driver_rows ?df rel))"
  let ?ref = "set_index_LapNumber (filter (\<lambda>(r, c). Driver r = rel) ?tbl)"
  let ?mk = "\<lambda>d. \<lparr>label = d,
                     xdata = map fst (gaps_df (filter (\<lambda>(r, c). Driver r = d) ?tbl) ?ref),
                     ydata = map snd (gaps_df (filter (\<lambda>(r, c). Driver r = d) ?tbl) ?ref),
                     style = get_driver_style ext d\<rparr>"
  have r: "race_trace_reference ext ?tbl rel
       = Inr (Some (?ref, ''Race Gaps Relative to '' @ rel, ''Gap to '' @ rel @ '' (s)''))"
    using h by (intro race_trace_reference_driver) simp_all
  from plot_race_trace_returns(1)[OF assms r, of ds]
  obtain ax where ax: "fst (plot_race_trace ext s rel ds w) = Inr (Some ax)"
    and ln: "lines ax = map ?mk (filter (\<lambda>d. d \<in> Driver ` set ?df) ?L)"
    by blast
  have dd: "distinct (map (\<lambda>i. LapNumber (?df ! i)) (driver_rows ?df rel))" using h by simp
  note G = own_gap_line[OF dd]
  have own: "\<forall>l\<in>set (lines ax). label l = rel \<longrightarrow>
                   xdata l = map (\<lambda>i. LapNumber (session_laps s w ! i)) (driver_rows (session_laps s w) rel)
                 \<and> ydata l = map (\<lambda>i. map_option (\<lambda>_. 0) (LapTime (session_laps s w ! i))) (driver_rows (session_laps s w) rel)"
  proof (intro ballI impI)
    fix l assume l: "l \<in> set (lines ax)" and lab: "label l = rel"
    from l obtain d where l': "l = ?mk d" unfolding ln by auto
    then have "d = rel" using lab by simp
    then have "l = ?mk rel" using l' by simp
    then show "xdata l = map (\<lambda>i. LapNumber (session_laps s w ! i)) (driver_rows (session_laps s w) rel)
                 \<and> ydata l = map (\<lambda>i. map_option (\<lambda>_. 0) (LapTime (session_laps s w ! i))) (driver_rows (session_laps s w) rel)"
      unfolding G by (simp add: comp_def)
  qed
  have drawn: "(\<forall>ds'. ds = Some ds' \<and> ds' \<noteq> [] \<longrightarrow> rel \<in> set ds') \<longrightarrow> line_of ax rel \<noteq> None"
  proof
    assume c: "\<forall>ds'. ds = Some ds' \<and> ds' \<noteq> [] \<longrightarrow> rel \<in> set ds'"
    have p: "rel \<in> Driver ` set (session_laps s w)" using h by simp
    then have u: "rel \<in> set (unique (map Driver (session_laps s w)))" by (simp add: set_unique)
    have "rel \<in> set ?L"
    proof (cases ds)
      case None
      then show ?thesis using u by simp
    next
      case (Some ds')
      then show ?thesis using u c by (cases "ds' = []") simp_all
    qed
    then have "?mk rel \<in> set (lines ax)" unfolding ln using p by simp
    then have "\<exists>l\<in>set (lines ax). label l = rel" by (intro bexI[of _ "?mk rel"]) simp_all
    then show "line_of ax rel \<noteq> None" unfolding line_of_def find_None_iff by blast
  qed
  show "\<exists>ax. fst (plot_race_trace ext s rel ds w) = Inr (Some ax)
             \<and> (\<forall>l\<in>set (lines ax). label l = rel \<longrightarrow>
                   xdata l = map (\<lambda>i. LapNumber (?df ! i)) (driver_rows ?df rel)
                 \<and> ydata l = map (\<lambda>i. map_option (\<lambda>_. 0) (LapTime (?df ! i))) (driver_rows ?df rel))
             \<and> ((\<forall>ds'. ds = Some ds' \<and> ds' \<noteq> [] \<longrightarrow> rel \<in> set ds') \<longrightarrow> line_of ax rel \<noteq> None)"
    by (intro exI[of _ ax] conjI ax own drawn)
qed

text \<open>
  In the example session B leads lap 2 (row 4): the line of B passes through (2, 0).
  With B as the reference, the line of B is drawn and is zero on its three laps; A is
  a nanosecond behind B on lap 2.
\<close>

theorem race_trace_zero_gap_witness:
  "valid_session example_session example_world
   \<and> fst (get_track_status_by_lap example_session example_world) = Inr [(1, ''1''), (2, ''6''), (3, ''4'')]
   \<and> leads_lap (session_laps example_session example_world) 4
   \<and> (\<exists>ax. fst (plot_race_trace example_externals example_session ''leader'' None example_world) = Inr (Some ax)
         \<and> (\<exists>l\<in>set (lines ax). label l = ''B'' \<and> (2, Some 0) \<in> set (zip (xdata l) (ydata l))))
   \<and> distinct (map (\<lambda>i. LapNumber (session_laps example_session example_world ! i))
                    (driver_rows (session_laps example_session example_world) ''B''))
   \<and> (\<exists>ax. fst (plot_race_trace example_externals example_session ''B'' None example_world) = Inr (Some ax)
         \<and> line_of ax ''B'' \<noteq> None)
   \<and> map_sum id (map_option (\<lambda>ax. map (\<lambda>l. (label l, xdata l, ydata l)) (lines ax)))
        (fst (plot_race_trace example_externals example_session ''B'' None example_world))
       = Inr (Some [(''A'', [1, 2, 3], [Some (- 1 / 500000000), Some (1 / 1000000000), Some 0]),
                    (''B'', [1, 2, 3], [Some 0, Some 0, Some 0])])
   \<and> map_sum id (map_option (\<lambda>ax. map (\<lambda>l. (label l, xdata l, ydata l)) (lines ax)))
        (fst (plot_race_trace example_externals example_session ''leader'' None example_world))
       = Inr (Some [(''A'', [1, 2, 3], [Some 0, Some (1 / 1000000000), Some 0]),
                    (''B'', [1, 2, 3], [Some (1 / 500000000), Some 0, Some 0])])"
proof -
  let ?df = "session_laps example_session example_world"
  have vs: "valid_session example_session example_world" by code_simp
  have v: "fst (get_track_status_by_lap example_session example_world) = Inr [(1, ''1''), (2, ''6''), (3, ''4'')]"
    by code_simp
  have l4: "leads_lap ?df 4" by code_simp
  have n4: "4 < length ?df" by code_simp
  have d4: "Driver (?df ! 4) = ''B''" by code_simp
  have k4: "LapNumber (?df ! 4) = 2" by code_simp
  have pb: "''B'' \<in> Driver ` set ?df" by code_simp
  have db: "distinct (map (\<lambda>i. LapNumber (?df ! i)) (driver_rows ?df ''B''))" by code_simp
  note T = race_trace_zero_gap[OF vs v, of example_externals None "''B''"]
  from T obtain ax where ax: "fst (plot_race_trace example_externals example_session ''leader'' None example_world) = Inr (Some ax)"
    and dr: "\<forall>i<length ?df. leads_lap ?df i \<longrightarrow>
                 (\<exists>l\<in>set (lines ax). label l = Driver (?df ! i)
                    \<and> (LapNumber (?df ! i), Some 0) \<in> set (zip (xdata l) (ydata l)))"
    by blast
  from dr n4 l4 have "\<exists>l\<in>set (lines ax). label l = Driver (?df ! 4)
                    \<and> (LapNumber (?df ! 4), Some 0) \<in> set (zip (xdata l) (ydata l))"
    by blast
  then have "\<exists>l\<in>set (lines ax). label l = ''B'' \<and> (2, Some 0) \<in> set (zip (xdata l) (ydata l))"
    unfolding d4 k4 .
  with ax have L: "\<exists>ax. fst (plot_race_trace example_externals example_session ''leader'' None example_world) = Inr (Some ax)
         \<and> (\<exists>l\<in>set (lines ax). label l = ''B'' \<and> (2, Some 0) \<in> set (zip (xdata l) (ydata l)))"
    by blast
  have hb: "''B'' \<noteq> ''average'' \<and> ''B'' \<noteq> ''leader'' \<and> ''B'' \<in> Driver ` set ?df
          \<and> distinct (map (\<lambda>i. LapNumber (?df ! i)) (driver_rows ?df ''B''))"
    using pb db by simp
  from T hb obtain ax' where ax': "fst (plot_race_trace example_externals example_session ''B'' None example_world) = Inr (Some ax')"
    and dn: "(\<forall>ds'. (None :: string list option) = Some ds' \<and> ds' \<noteq> [] \<longrightarrow> ''B'' \<in> set ds') \<longrightarrow> line_of ax' ''B'' \<noteq> None"
    by blast
  from dn have "line_of ax' ''B'' \<noteq> None" by simp
  with ax' have E: "\<exists>ax. fst (plot_race_trace example_externals example_session ''B'' None example_world) = Inr (Some ax)
         \<and> line_of ax ''B'' \<noteq> None"
    by blast
  have F: "map_sum id (map_option (\<lambda>ax. map (\<lambda>l. (label l, xdata l, ydata l)) (lines ax)))
        (fst (plot_race_trace example_externals example_session ''B'' None example_world))
       = Inr (Some [(''A'', [1, 2, 3], [Some (- 1 / 500000000), Some (1 / 1000000000), Some 0]),
                    (''B'', [1, 2, 3], [Some 0, Some 0, Some 0])])"
    by code_simp
  have G: "map_sum id (map_option (\<lambda>ax. map (\<lambda>l. (label l, xdata l, ydata l)) (lines ax)))
        (fst (plot_race_trace example_externals example_session ''leader'' None example_world))
       = Inr (Some [(''A'', [1, 2, 3], [Some 0, Some (1 / 1000000000), Some 0]),
                    (''B'', [1, 2, 3], [Some (1 / 500000000), Some 0, Some 0])])"
    by code_simp
  show ?thesis by (intro conjI vs v l4 L db E F G)
qed

subsection \<open>Tyre stints\<close>

lemma set_map_filter: "set (List.map_filter f xs) = {y. \<exists>x\<in>set xs. f x = Some y}"
  by (induction xs) (auto simp: List.map_filter_simps split: option.splits)

lemma stint_key_Driver: "stint_key r = Some k \<Longrightarrow> fst k = Driver r"
  by (auto simp: stint_key_def split: option.splits)

lemma stint_key_Some_iff: "(\<exists>k. stint_key r = Some k) \<longleftrightarrow> Stint r \<noteq> None \<and> Compound r \<noteq> None"
  by (auto simp: stint_key_def split: option.splits)

lemma tyre_stints_eq:
  "tyre_stints df = map (\<lambda>k. (k, Min (stint_laps df k), Max (stint_laps df k)))
                       (group_keys (List.map_filter stint_key df))"
  by (simp add: tyre_stints_def stint_laps_def)

lemma stint_laps_finite: "finite (stint_laps df k)"
  by (simp add: stint_laps_def)

lemma interval_Min_Max:
  fixes S :: "int set"
  assumes "finite S" "S \<noteq> {}" and "\<forall>a\<in>S. \<forall>b\<in>S. \<forall>n. a \<le> n \<and> n \<le> b \<longrightarrow> n \<in> S"
  shows "{Min S..Max S} = S"
proof
  show "{Min S..Max S} \<subseteq> S"
  proof
    fix n assume "n \<in> {Min S..Max S}"
    then have "Min S \<le> n \<and> n \<le> Max S" by simp
    moreover have "Min S \<in> S" "Max S \<in> S" using assms(1,2) by simp_all
    ultimately show "n \<in> S" using assms(3) by blast
  qed
  show "S \<subseteq> {Min S..Max S}"
    using assms(1) by auto
qed

lemma driver_stints_eq:
  "driver_stints (tyre_stints df) d
     = map (\<lambda>k. (k, Min (stint_laps df k), Max (stint_laps df k)))
           (filter (\<lambda>k. fst k = d) (group_keys (List.map_filter stint_key df)))"
  unfolding driver_stints_def tyre_stints_eq filter_map
  by (simp add: comp_def case_prod_unfold)

lemma stint_keys_set:
  "set (group_keys (List.map_filter stint_key df)) = {k. \<exists>r\<in>set df. stint_key r = Some k}"
  unfolding group_keys_set set_map_filter ..

lemma stint_laps_iff:
  "n \<in> stint_laps df k \<longleftrightarrow> (\<exists>r\<in>set df. stint_key r = Some k \<and> LapNumber r = n)"
  unfolding stint_laps_def by auto

lemma stint_laps_nonempty:
  "k \<in> set (group_keys (List.map_filter stint_key df)) \<Longrightarrow> stint_laps df k \<noteq> {}"
  unfolding stint_keys_set using stint_laps_iff by fastforce

lemma covered_laps_map:
  "covered_laps (map (\<lambda>k. (k, lo k, hi k)) ks) = (\<Union>k\<in>set ks. {lo k..hi k})"
  unfolding covered_laps_def by auto

lemma stint_rows_same_lap:
  assumes "distinct (map LapNumber (filter (\<lambda>r. Driver r = d) df))"
    and "r \<in> set df" "r' \<in> set df" "Driver r = d" "Driver r' = d" "LapNumber r = LapNumber r'"
  shows "r = r'"
proof -
  have "inj_on LapNumber (set (filter (\<lambda>r. Driver r = d) df))"
    using assms(1) by (simp add: distinct_map)
  moreover have "r \<in> set (filter (\<lambda>r. Driver r = d) df)" "r' \<in> set (filter (\<lambda>r. Driver r = d) df)"
    using assms(2-5) by simp_all
  ultimately show ?thesis using assms(6) by (meson inj_onD)
qed

lemma driver_stint_span:
  assumes "\<forall>k. fst k = d \<longrightarrow>
             (\<forall>a\<in>stint_laps df k. \<forall>b\<in>stint_laps df k. \<forall>n. a \<le> n \<and> n \<le> b \<longrightarrow> n \<in> stint_laps df k)"
    and "k \<in> set (filter (\<lambda>k. fst k = d) (group_keys (List.map_filter stint_key df)))"
  shows "{Min (stint_laps df k)..Max (stint_laps df k)} = stint_laps df k"
proof (rule interval_Min_Max)
  show "finite (stint_laps df k)" by (rule stint_laps_finite)
  show "stint_laps df k \<noteq> {}" using assms(2) by (simp add: stint_laps_nonempty)
  from assms(2) have "fst k = d" by simp
  with assms(1) show "\<forall>a\<in>stint_laps df k. \<forall>b\<in>stint_laps df k. \<forall>n. a \<le> n \<and> n \<le> b \<longrightarrow> n \<in> stint_laps df k"
    by blast
qed

lemma driver_laps_in_stints:
  assumes "\<forall>r\<in>set df. Driver r = d \<longrightarrow> Stint r \<noteq> None \<and> Compound r \<noteq> None"
  shows "(\<Union>k\<in>set (filter (\<lambda>k. fst k = d) (group_keys (List.map_filter stint_key df))). stint_laps df k)
       = LapNumber ` set (filter (\<lambda>r. Driver r = d) df)"
proof (intro set_eqI iffI)
  fix n
  assume "n \<in> (\<Union>k\<in>set (filter (\<lambda>k. fst k = d) (group_keys (List.map_filter stint_key df))). stint_laps df k)"
  then obtain k where "k \<in> set (filter (\<lambda>k. fst k = d) (group_keys (List.map_filter stint_key df)))"
    and n: "n \<in> stint_laps df k" by (rule UN_E)
  then have k: "fst k = d" by simp
  from n obtain r where r: "r \<in> set df" "stint_key r = Some k" "LapNumber r = n"
    unfolding stint_laps_iff by blast
  have "Driver r = d" using stint_key_Driver[OF r(2)] k by simp
  then show "n \<in> LapNumber ` set (filter (\<lambda>r. Driver r = d) df)" using r by auto
next
  fix n
  assume "n \<in> LapNumber ` set (filter (\<lambda>r. Driver r = d) df)"
  then obtain r where r: "r \<in> set df" "Driver r = d" "LapNumber r = n" by auto
  then have "Stint r \<noteq> None \<and> Compound r \<noteq> None" using assms by blast
  then obtain k where k: "stint_key r = Some k" using stint_key_Some_iff by blast
  have "fst k = d" using stint_key_Driver[OF k] r(2) by simp
  moreover have "k \<in> set (group_keys (List.map_filter stint_key df))"
    unfolding stint_keys_set using r(1) k by blast
  moreover have "n \<in> stint_laps df k" unfolding stint_laps_iff using r k by blast
  ultimately have "k \<in> set (filter (\<lambda>k. fst k = d) (group_keys (List.map_filter stint_key df)))"
    and "n \<in> stint_laps df k" by simp_all
  then show "n \<in> (\<Union>k\<in>set (filter (\<lambda>k. fst k = d) (group_keys (List.map_filter stint_key df))). stint_laps df k)"
    by (rule UN_I)
qed

lemma stint_laps_disjoint:
  assumes "distinct (map LapNumber (filter (\<lambda>r. Driver r = d) df))"
    and "fst k = d" "fst k' = d" "k \<noteq> k'"
  shows "stint_laps df k \<inter> stint_laps df k' = {}"
proof (rule ccontr)
  assume "stint_laps df k \<inter> stint_laps df k' \<noteq> {}"
  then obtain n where "n \<in> stint_laps df k" "n \<in> stint_laps df k'" by blast
  then obtain r r' where r: "r \<in> set df" "stint_key r = Some k" "LapNumber r = n"
    and r': "r' \<in> set df" "stint_key r' = Some k'" "LapNumber r' = n"
    unfolding stint_laps_iff by blast
  have "Driver r = d" "Driver r' = d"
    using stint_key_Driver[OF r(2)] stint_key_Driver[OF r'(2)] assms(2,3) by simp_all
  then have "r = r'" using stint_rows_same_lap[OF assms(1) r(1) r'(1)] r(3) r'(3) by simp
  then show False using r(2) r'(2) assms(4) by simp
qed

lemma driver_stints_to_plot:
  "d \<in> set ds \<Longrightarrow> driver_stints (stints_to_plot stints ds) d = driver_stints stints d"
  unfolding driver_stints_def stints_to_plot_def isin_def filter_filter
  by (rule filter_cong) auto

text \<open>
  Claim C7 (as amended). The stints of a driver that is plotted are one per group
  (driver, stint, compound) of that driver's rows, with the least and the greatest lap
  number of the group. If every row of the driver has a stint and a compound, the
  driver has one row per lap number, and the lap numbers of each group are
  consecutive, then every span
  [min, max] is exactly the set of lap numbers of its group, the spans together cover
  exactly the driver's lap numbers, and no two of them overlap.
\<close>

theorem stint_spans_partition:
  assumes "d \<in> set ds"
    and "\<forall>r\<in>set df. Driver r = d \<longrightarrow> Stint r \<noteq> None \<and> Compound r \<noteq> None"
    and "distinct (map LapNumber (filter (\<lambda>r. Driver r = d) df))"
    and "\<forall>k. fst k = d \<longrightarrow>
           (\<forall>a\<in>stint_laps df k. \<forall>b\<in>stint_laps df k. \<forall>n. a \<le> n \<and> n \<le> b \<longrightarrow> n \<in> stint_laps df k)"
  shows "covered_laps (driver_stints (stints_to_plot (tyre_stints df) ds) d) = LapNumber ` set (filter (\<lambda>r. Driver r = d) df)
       \<and> (\<forall>i<length (driver_stints (stints_to_plot (tyre_stints df) ds) d). \<forall>j<length (driver_stints (stints_to_plot (tyre_stints df) ds) d). i \<noteq> j \<longrightarrow>
            {fst (snd (driver_stints (stints_to_plot (tyre_stints df) ds) d ! i))..snd (snd (driver_stints (stints_to_plot (tyre_stints df) ds) d ! i))} \<inter> {fst (snd (driver_stints (stints_to_plot (tyre_stints df) ds) d ! j))..snd (snd (driver_stints (stints_to_plot (tyre_stints df) ds) d ! j))} = {})
       \<and> distinct (map fst (driver_stints (stints_to_plot (tyre_stints df) ds) d))
       \<and> set (map fst (driver_stints (stints_to_plot (tyre_stints df) ds) d)) = {k. fst k = d \<and> (\<exists>r\<in>set df. stint_key r = Some k)}
       \<and> (\<forall>i<length (driver_stints (stints_to_plot (tyre_stints df) ds) d).
            fst (snd (driver_stints (stints_to_plot (tyre_stints df) ds) d ! i)) = Min (stint_laps df (fst (driver_stints (stints_to_plot (tyre_stints df) ds) d ! i)))
          \<and> snd (snd (driver_stints (stints_to_plot (tyre_stints df) ds) d ! i)) = Max (stint_laps df (fst (driver_stints (stints_to_plot (tyre_stints df) ds) d ! i)))
          \<and> {fst (snd (driver_stints (stints_to_plot (tyre_stints df) ds) d ! i))..snd (snd (driver_stints (stints_to_plot (tyre_stints df) ds) d ! i))} = stint_laps df (fst (driver_stints (stints_to_plot (tyre_stints df) ds) d ! i)))"
proof -
  let ?ks = "filter (\<lambda>k. fst k = d) (group_keys (List.map_filter stint_key df))"
  let ?S = "driver_stints (stints_to_plot (tyre_stints df) ds) d"
  have S: "?S = map (\<lambda>k. (k, Min (stint_laps df k), Max (stint_laps df k))) ?ks"
    unfolding driver_stints_to_plot[OF assms(1)] by (rule driver_stints_eq)
  have len: "length ?S = length ?ks" unfolding S by simp
  have nth: "?S ! i = (?ks ! i, Min (stint_laps df (?ks ! i)), Max (stint_laps df (?ks ! i)))"
    if "i < length ?ks" for i
    unfolding S using that by simp
  have dk: "distinct ?ks" by (simp add: group_keys_def)
  have span: "{Min (stint_laps df k)..Max (stint_laps df k)} = stint_laps df k" if "k \<in> set ?ks" for k
    by (rule driver_stint_span[OF assms(4) that])
  have "covered_laps ?S = (\<Union>k\<in>set ?ks. {Min (stint_laps df k)..Max (stint_laps df k)})"
    unfolding S by (rule covered_laps_map)
  also have "\<dots> = (\<Union>k\<in>set ?ks. stint_laps df k)"
    using span by (intro SUP_cong refl)
  also have "\<dots> = LapNumber ` set (filter (\<lambda>r. Driver r = d) df)"
    by (rule driver_laps_in_stints[OF assms(2)])
  finally have A: "covered_laps ?S = LapNumber ` set (filter (\<lambda>r. Driver r = d) df)" .
  have B: "\<forall>i<length ?S. \<forall>j<length ?S. i \<noteq> j \<longrightarrow>
            {fst (snd (?S ! i))..snd (snd (?S ! i))} \<inter> {fst (snd (?S ! j))..snd (snd (?S ! j))} = {}"
  proof (intro allI impI)
    fix i j assume i: "i < length ?S" and j: "j < length ?S" and ne: "i \<noteq> j"
    have i': "i < length ?ks" and j': "j < length ?ks" using i j len by simp_all
    have kne: "?ks ! i \<noteq> ?ks ! j" using dk i' j' ne by (simp add: nth_eq_iff_index_eq)
    have mi: "?ks ! i \<in> set ?ks" and mj: "?ks ! j \<in> set ?ks" using i' j' by (meson nth_mem)+
    then have fi: "fst (?ks ! i) = d" and fj: "fst (?ks ! j) = d" by simp_all
    have "{fst (snd (?S ! i))..snd (snd (?S ! i))} = stint_laps df (?ks ! i)"
      unfolding nth[OF i'] using span[OF mi] by simp
    moreover have "{fst (snd (?S ! j))..snd (snd (?S ! j))} = stint_laps df (?ks ! j)"
      unfolding nth[OF j'] using span[OF mj] by simp
    ultimately show "{fst (snd (?S ! i))..snd (snd (?S ! i))} \<inter> {fst (snd (?S ! j))..snd (snd (?S ! j))} = {}"
      using stint_laps_disjoint[OF assms(3) fi fj kne] by simp
  qed
  have mf: "map fst ?S = ?ks" unfolding S by (simp add: comp_def)
  have C: "distinct (map fst ?S)" unfolding mf by (rule dk)
  have D: "set (map fst ?S) = {k. fst k = d \<and> (\<exists>r\<in>set df. stint_key r = Some k)}"
    unfolding mf using stint_keys_set[of df] by auto
  have E: "\<forall>i<length ?S.
            fst (snd (?S ! i)) = Min (stint_laps df (fst (?S ! i)))
          \<and> snd (snd (?S ! i)) = Max (stint_laps df (fst (?S ! i)))
          \<and> {fst (snd (?S ! i))..snd (snd (?S ! i))} = stint_laps df (fst (?S ! i))"
  proof (intro allI impI)
    fix i assume "i < length ?S"
    then have i': "i < length ?ks" using len by simp
    have mi: "?ks ! i \<in> set ?ks" using i' by (meson nth_mem)
    show "fst (snd (?S ! i)) = Min (stint_laps df (fst (?S ! i)))
          \<and> snd (snd (?S ! i)) = Max (stint_laps df (fst (?S ! i)))
          \<and> {fst (snd (?S ! i))..snd (snd (?S ! i))} = stint_laps df (fst (?S ! i))"
      unfolding nth[OF i'] using span[OF mi] by simp
  qed
  show ?thesis by (intro conjI A B C D E)
qed

text \<open>
  Driver A of the example has the stints 1 to 2 on soft and 3 to 4 on hard tyres; they
  cover the laps 1 to 4 of A.
\<close>

theorem stint_spans_partition_witness:
  "driver_stints (stints_to_plot (tyre_stints two_stint_laps) [''A'', ''B'']) ''A''
     = [((''A'', 1, ''SOFT''), 1, 2), ((''A'', 2, ''HARD''), 3, 4)]
   \<and> distinct (map LapNumber (pick_drivers ''A'' two_stint_laps))
   \<and> stint_laps two_stint_laps (''A'', 1, ''SOFT'') = {1, 2}
   \<and> stint_laps two_stint_laps (''A'', 2, ''HARD'') = {3, 4}
   \<and> covered_laps (driver_stints (stints_to_plot (tyre_stints two_stint_laps) [''A'', ''B'']) ''A'') = {1, 2, 3, 4}
   \<and> LapNumber ` set (pick_drivers ''A'' two_stint_laps) = {1, 2, 3, 4}"
proof -
  have S: "driver_stints (stints_to_plot (tyre_stints two_stint_laps) [''A'', ''B'']) ''A''
     = [((''A'', 1, ''SOFT''), 1, 2), ((''A'', 2, ''HARD''), 3, 4)]"
    by code_simp
  have p: "pick_drivers ''A'' two_stint_laps = filter (\<lambda>r. Driver r = ''A'') two_stint_laps"
    by (simp add: pick_drivers_def)
  have H1: "\<forall>r\<in>set two_stint_laps. Driver r = ''A'' \<longrightarrow> Stint r \<noteq> None \<and> Compound r \<noteq> None"
    by (simp add: two_stint_laps_def stint_row_def)
  have H2: "distinct (map LapNumber (filter (\<lambda>r. Driver r = ''A'') two_stint_laps))"
    by (simp add: two_stint_laps_def stint_row_def)
  have L: "stint_laps two_stint_laps k =
             (if k = (''A'', 1, ''SOFT'') then {1, 2}
              else if k = (''A'', 2, ''HARD'') then {3, 4}
              else if k = (''B'', 1, ''MEDIUM'') then {1, 2} else {})" for k
    by (auto simp: stint_laps_def two_stint_laps_def stint_row_def stint_key_def)
  have H3: "\<forall>k. fst k = ''A'' \<longrightarrow>
           (\<forall>a\<in>stint_laps two_stint_laps k. \<forall>b\<in>stint_laps two_stint_laps k.
              \<forall>n. a \<le> n \<and> n \<le> b \<longrightarrow> n \<in> stint_laps two_stint_laps k)"
    unfolding L by auto
  have C: "covered_laps (driver_stints (stints_to_plot (tyre_stints two_stint_laps) [''A'', ''B'']) ''A'') = {1, 2, 3, 4}"
    by code_simp
  have H0: "''A'' \<in> set [''A'', ''B'']" by simp
  from stint_spans_partition[OF H0 H1 H2 H3]
  have "covered_laps (driver_stints (stints_to_plot (tyre_stints two_stint_laps) [''A'', ''B'']) ''A'')
      = LapNumber ` set (filter (\<lambda>r. Driver r = ''A'') two_stint_laps)"
    by blast
  then have D: "LapNumber ` set (pick_drivers ''A'' two_stint_laps) = {1, 2, 3, 4}"
    unfolding p C by simp
  have H2': "distinct (map LapNumber (pick_drivers ''A'' two_stint_laps))" unfolding p by (rule H2)
  have L1: "stint_laps two_stint_laps (''A'', 1, ''SOFT'') = {1, 2}" unfolding L by simp
  have L2: "stint_laps two_stint_laps (''A'', 2, ''HARD'') = {3, 4}" unfolding L by simp
  show ?thesis by (intro conjI S H2' L1 L2 C D)
qed

text \<open>
  The claim as stated, for every driver of every session, fails twice. A lap whose row
  has no compound belongs to no group: lap 2 of A is a lap of A that no span covers. And
  a span is only the least and the greatest lap number of its group: with rows for the
  laps 1, 2 and 4 the span 1 to 4 covers lap 3, which is not a lap of A.
\<close>

theorem stint_spans_not_the_laps:
  "map LapNumber (pick_drivers ''A'' uncompounded_laps) = [1, 2]
   \<and> driver_stints (stints_to_plot (tyre_stints uncompounded_laps) [''A'']) ''A'' = [((''A'', 1, ''SOFT''), 1, 1)]
   \<and> covered_laps (driver_stints (stints_to_plot (tyre_stints uncompounded_laps) [''A'']) ''A'') = {1}
   \<and> covered_laps (driver_stints (stints_to_plot (tyre_stints uncompounded_laps) [''A'']) ''A'')
       \<noteq> LapNumber ` set (pick_drivers ''A'' uncompounded_laps)
   \<and> map LapNumber (pick_drivers ''A'' gapped_laps) = [1, 2, 4]
   \<and> driver_stints (stints_to_plot (tyre_stints gapped_laps) [''A'']) ''A'' = [((''A'', 1, ''SOFT''), 1, 4)]
   \<and> covered_laps (driver_stints (stints_to_plot (tyre_stints gapped_laps) [''A'']) ''A'') = {1, 2, 3, 4}
   \<and> covered_laps (driver_stints (stints_to_plot (tyre_stints gapped_laps) [''A'']) ''A'')
       \<noteq> LapNumber ` set (pick_drivers ''A'' gapped_laps)"
  by code_simp

end
